theory Spec2Isabelle
  imports
    Complex_Main
    "HOL-Library.Char_ord"
    "HOL-Library.List_Lexorder"
    "HOL-Library.Product_Lexorder"
    "HOL-Library.Multiset"
begin

section \<open>Data model\<close>

text \<open>
  The two scripts (\<^verbatim>\<open>Classroom_shift_assignment_script.py\<close>, the single-week script,
  and \<^verbatim>\<open>Two_Week_assignment.py\<close>, the two-week script) work on three tables.

  Instants (pandas \<^verbatim>\<open>Timestamp\<close>) are rational numbers of seconds on a naive time line;
  a missing instant (\<^verbatim>\<open>NaT\<close>) is \<open>None\<close>.  The shift length in minutes,
  \<^verbatim>\<open>(shift_end - shift_start).total_seconds() / 60\<close>, is computed exactly.
  Strings are lists of characters, compared as Python compares them: lexicographically
  by code point.  A missing cell (\<^verbatim>\<open>NaN\<close>) in a column that may have one is \<open>None\<close>.
  Every inventory row is taken to have a room name.
\<close>

type_synonym instant = rat

text \<open>A row of the class schedule as read from the CSV file.\<close>

record class_row =
  Status :: string
  day_of_week_of_first_session :: string
  Start_Date :: string
  Initial_Start_Time :: string
  Initial_End_Time :: string
  Locations :: string

text \<open>
  A row of the class schedule after cleaning (lines 86--96 of the single-week script):
  \<^verbatim>\<open>Room\<close>, \<^verbatim>\<open>day\<close>, \<^verbatim>\<open>Start DateTime\<close>, \<^verbatim>\<open>End DateTime\<close>.
\<close>

type_synonym schedule_row = "string \<times> string option \<times> instant option \<times> instant option"

type_synonym interval = "instant option \<times> instant option"

text \<open>\<^verbatim>\<open>schedule_by_room_day\<close>: a \<^verbatim>\<open>defaultdict(list)\<close> keyed by \<^verbatim>\<open>(Room, day)\<close>.\<close>

type_synonym occupancy = "(string \<times> string option) \<rightharpoonup> interval list"

text \<open>
  A row of the room inventory after cleaning: \<^verbatim>\<open>building\<close> is the leading run of
  upper-case letters of the room name and is missing when there is none; \<open>rtype\<close> is
  what \<^verbatim>\<open>room_row.get("type", "")\<close> gives, the empty string when the inventory has no
  column \<^verbatim>\<open>type\<close>.
\<close>

record room_row =
  room :: string
  building :: "string option"
  zone :: string
  priority :: int
  rtype :: string

text \<open>
  A student shift after cleaning: rows without \<^verbatim>\<open>start_dt\<close>, \<^verbatim>\<open>end_dt\<close> or \<^verbatim>\<open>Day\<close>
  have been dropped; \<^verbatim>\<open>person\<close> is not in the \<^verbatim>\<open>dropna\<close> subset and may be missing.
\<close>

record shift =
  person :: "string option"
  Day :: string
  start_dt :: instant
  end_dt :: instant

text \<open>An entry of \<^verbatim>\<open>assignments\<close>; \<open>Day_label\<close> is the column \<^verbatim>\<open>Day\<close>.\<close>

record assignment =
  Student :: "string option"
  Day_label :: string
  Shift_Start :: string
  Shift_End :: string
  Room :: string
  Building :: "string option"
  Zone :: string
  Priority :: int
  Room_Type :: string

section \<open>Constants\<close>

definition ROOM_CHECK_TIME :: int where
  "ROOM_CHECK_TIME = 10"

definition SHIFT_START_END_BUFFER :: int where
  "SHIFT_START_END_BUFFER = 0"

definition HALF_TIME_FACTOR :: rat where
  "HALF_TIME_FACTOR = 1 / 2"

text \<open>Python's \<^verbatim>\<open>round\<close>: to the nearest integer, a tie to the even one.\<close>

definition py_round :: "rat \<Rightarrow> int" where
  "py_round x =
     (let f = \<lfloor>x\<rfloor>; d = x - of_int f
      in if d < 1 / 2 then f
         else if 1 / 2 < d then f + 1
         else if even f then f else f + 1)"

definition EFFECTIVE_ROOM_CHECK_TIME :: int where
  "EFFECTIVE_ROOM_CHECK_TIME = max 1 (py_round (of_int ROOM_CHECK_TIME * HALF_TIME_FACTOR))"

section \<open>Cleaning the class schedule and indexing it\<close>

text \<open>The dictionary passed to \<^verbatim>\<open>.map\<close> on the weekday column; an unmapped value gives NaN.\<close>

definition day_map :: "string \<Rightarrow> string option" where
  "day_map d =
     (if d = ''Mon'' then Some ''Monday''
      else if d = ''Tue'' then Some ''Tuesday''
      else if d = ''Weds'' then Some ''Wednesday''
      else if d = ''Thu'' then Some ''Thursday''
      else if d = ''Fri'' then Some ''Friday''
      else None)"

text \<open>\<^verbatim>\<open>str.split(',')\<close>: one piece more than there are commas.\<close>

fun split_comma :: "string \<Rightarrow> string list" where
  "split_comma [] = [[]]"
| "split_comma (c # cs) =
     (if c = CHR '','' then [] # split_comma cs
      else (case split_comma cs of
              [] \<Rightarrow> [[c]]
            | w # ws \<Rightarrow> (c # w) # ws))"

text \<open>
  \<^verbatim>\<open>str.strip()\<close>: the white space of Python among the code points below 256.
\<close>

definition isspace :: "char \<Rightarrow> bool" where
  "isspace c =
     (let n = (of_char c :: nat)
      in (9 \<le> n \<and> n \<le> 13) \<or> (28 \<le> n \<and> n \<le> 32) \<or> n = 133 \<or> n = 160)"

definition strip :: "string \<Rightarrow> string" where
  "strip s = rev (dropWhile isspace (rev (dropWhile isspace s)))"

text \<open>
  Lines 86--96: keep the confirmed rows, map the weekday, parse start and end
  (\<open>parse_dt date time\<close> stands for \<^verbatim>\<open>pd.to_datetime(date + ' ' + time, format=...,
  errors='coerce')\<close>, which gives \<^verbatim>\<open>NaT\<close> where the text does not parse), and explode the
  comma-separated \<^verbatim>\<open>Locations\<close> into one row per room.
\<close>

definition explode_row :: "(string \<Rightarrow> string \<Rightarrow> instant option) \<Rightarrow> class_row \<Rightarrow> schedule_row list" where
  "explode_row parse_dt row =
     map (\<lambda>r. (strip r,
               day_map (day_of_week_of_first_session row),
               parse_dt (Start_Date row) (Initial_Start_Time row),
               parse_dt (Start_Date row) (Initial_End_Time row)))
         (split_comma (Locations row))"

definition clean_schedule :: "(string \<Rightarrow> string \<Rightarrow> instant option) \<Rightarrow> class_row list \<Rightarrow> schedule_row list" where
  "clean_schedule parse_dt schedule =
     concat (map (explode_row parse_dt) (filter (\<lambda>row. Status row = ''Confirmed'') schedule))"

text \<open>\<^verbatim>\<open>schedule_by_room_day.get(key, [])\<close>.\<close>

definition get_conflicts :: "occupancy \<Rightarrow> string \<times> string option \<Rightarrow> interval list" where
  "get_conflicts idx key = (case idx key of None \<Rightarrow> [] | Some ivs \<Rightarrow> ivs)"

text \<open>Lines 113--115: every cleaned row appends its pair to the list of its key.\<close>

fun index_rows :: "occupancy \<Rightarrow> schedule_row list \<Rightarrow> occupancy" where
  "index_rows idx [] = idx"
| "index_rows idx ((r, d, s, e) # rows) =
     index_rows (idx((r, d) \<mapsto> get_conflicts idx (r, d) @ [(s, e)])) rows"

definition schedule_by_room_day :: "(string \<Rightarrow> string \<Rightarrow> instant option) \<Rightarrow> class_row list \<Rightarrow> occupancy" where
  "schedule_by_room_day parse_dt schedule = index_rows Map.empty (clean_schedule parse_dt schedule)"

section \<open>The conflict test and the time budget\<close>

text \<open>
  \<^verbatim>\<open>start < shift_end and end > shift_start\<close>; a comparison with \<^verbatim>\<open>NaT\<close> is false.
\<close>

fun overlaps :: "interval \<Rightarrow> instant \<Rightarrow> instant \<Rightarrow> bool" where
  "overlaps (Some st, Some en) shift_start shift_end = (st < shift_end \<and> en > shift_start)"
| "overlaps _ shift_start shift_end = False"

definition has_conflict :: "occupancy \<Rightarrow> string \<Rightarrow> shift \<Rightarrow> bool" where
  "has_conflict idx room_name s =
     list_ex (\<lambda>iv. overlaps iv (start_dt s) (end_dt s)) (get_conflicts idx (room_name, Some (Day s)))"

definition usable_time :: "shift \<Rightarrow> rat" where
  "usable_time s = (end_dt s - start_dt s) / 60 - of_int SHIFT_START_END_BUFFER"

section \<open>Ranking the zones\<close>

text \<open>
  A sort on a single integer key, \<^verbatim>\<open>sort_values\<close> with the default
  \<^verbatim>\<open>kind='quicksort'\<close>.  The result is sorted by the key, but this sort is not stable:
  the order it leaves among rows of equal key is decided by the sorting routine from the
  array of keys, and nothing else is known about it.  That order is a parameter of the
  model: \<open>ties keys i\<close> is the rank that the routine gives position \<open>i\<close> of the array
  \<open>keys\<close> among the positions of the same key.  Positions of equal key and equal rank
  keep their order, so that constant ranks describe a stable sort.
\<close>

type_synonym tie_rank = "int list \<Rightarrow> nat \<Rightarrow> nat"

definition argsort_by :: "tie_rank \<Rightarrow> ('a \<Rightarrow> int) \<Rightarrow> 'a list \<Rightarrow> 'a list" where
  "argsort_by ties f xs =
     map snd (sort_key (\<lambda>p. (f (snd p), ties (map f xs) (fst p))) (enumerate 0 xs))"

text \<open>
  \<^verbatim>\<open>sort_values(ascending=False)\<close> on a series: pandas reverses the values, sorts them
  ascending and reverses the result.
\<close>

definition sort_values_desc :: "tie_rank \<Rightarrow> ('a \<Rightarrow> int) \<Rightarrow> 'a list \<Rightarrow> 'a list" where
  "sort_values_desc ties f xs = rev (argsort_by ties f (rev xs))"

text \<open>
  \<^verbatim>\<open>zone_scores\<close> (written the same way in both scripts): the rooms not yet assigned
  are grouped by zone (\<^verbatim>\<open>groupby\<close> sorts the group keys), each zone is scored by the
  number of its remaining rooms of priority at most 2, and the zones are sorted by
  descending score.
\<close>

definition zone_scores :: "tie_rank \<Rightarrow> room_row list \<Rightarrow> string set \<Rightarrow> (string \<times> int) list" where
  "zone_scores ties rooms assigned =
     (let remaining = filter (\<lambda>r. room r \<notin> assigned) rooms;
          zones = sort (remdups (map zone remaining))
      in sort_values_desc ties snd
           (map (\<lambda>z. (z, int (length (filter (\<lambda>r. zone r = z \<and> priority r \<le> 2) remaining))))
                zones))"

text \<open>\<^verbatim>\<open>rooms[(rooms['zone'] == zone) & (~rooms['room'].isin(assigned))]\<close>\<close>

definition available :: "room_row list \<Rightarrow> string set \<Rightarrow> string \<Rightarrow> room_row list" where
  "available rooms assigned z = filter (\<lambda>r. zone r = z \<and> room r \<notin> assigned) rooms"

section \<open>The single-week script\<close>

record state =
  assignments :: "assignment list"
  rooms_assigned :: "string set"
  room_week_assigned :: "(string \<times> nat) set"

text \<open>Lines 144--149: the first zone of the ranking that has an available room.\<close>

fun zone_chosen :: "room_row list \<Rightarrow> string set \<Rightarrow> string list \<Rightarrow> string option" where
  "zone_chosen rooms assigned [] = None"
| "zone_chosen rooms assigned (z # zs) =
     (if available rooms assigned z \<noteq> [] then Some z else zone_chosen rooms assigned zs)"

text \<open>
  Lines 154--156: \<^verbatim>\<open>sort_values(by='priority')\<close>, one key only, so that the order of
  the rooms of equal priority is the one the sorting routine leaves (see \<open>argsort_by\<close>).
\<close>

definition zone_rooms_df :: "tie_rank \<Rightarrow> room_row list \<Rightarrow> string set \<Rightarrow> string \<Rightarrow> room_row list" where
  "zone_rooms_df ties rooms assigned z = argsort_by ties priority (available rooms assigned z)"

definition make_assignment :: "(instant \<Rightarrow> string) \<Rightarrow> shift \<Rightarrow> room_row \<Rightarrow> assignment" where
  "make_assignment hhmm s r =
     \<lparr>Student = person s, Day_label = Day s,
      Shift_Start = hhmm (start_dt s), Shift_End = hhmm (end_dt s),
      Room = room r, Building = building r, Zone = zone r,
      Priority = priority r, Room_Type = rtype r\<rparr>"

text \<open>
  Lines 158--186, the loop over the candidate rooms; \<open>time_used\<close> is threaded with the
  state, \<open>week_num\<close> is the ISO week of the shift start and \<open>hhmm\<close> stands for
  \<^verbatim>\<open>strftime("%H:%M")\<close>.
\<close>

fun assign_rooms ::
  "(instant \<Rightarrow> string) \<Rightarrow> occupancy \<Rightarrow> shift \<Rightarrow> nat \<Rightarrow> room_row list \<Rightarrow> int \<times> state \<Rightarrow> int \<times> state" where
  "assign_rooms hhmm idx s week_num [] (time_used, st) = (time_used, st)"
| "assign_rooms hhmm idx s week_num (room_row # rest) (time_used, st) =
     (if (room room_row, week_num) \<in> room_week_assigned st
      then assign_rooms hhmm idx s week_num rest (time_used, st)
      else if has_conflict idx (room room_row) s
      then assign_rooms hhmm idx s week_num rest (time_used, st)
      else if of_int (time_used + ROOM_CHECK_TIME) > usable_time s
      then (time_used, st)
      else assign_rooms hhmm idx s week_num rest
             (time_used + ROOM_CHECK_TIME,
              \<lparr>assignments = assignments st @ [make_assignment hhmm s room_row],
               rooms_assigned = insert (room room_row) (rooms_assigned st),
               room_week_assigned = insert (room room_row, week_num) (room_week_assigned st)\<rparr>))"

text \<open>
  Lines 122--186, the body of the loop over the shifts.  \<^verbatim>\<open>if not zone_chosen\<close> is true
  for \<^verbatim>\<open>None\<close> and for the empty string.
\<close>

definition assign_shift ::
  "tie_rank \<Rightarrow> (instant \<Rightarrow> nat) \<Rightarrow> (instant \<Rightarrow> string) \<Rightarrow> occupancy \<Rightarrow> room_row list \<Rightarrow> state \<Rightarrow> shift \<Rightarrow> state" where
  "assign_shift ties week_of hhmm idx rooms st s =
     (if usable_time s \<le> 0 then st
      else (case zone_chosen rooms (rooms_assigned st)
                   (map fst (zone_scores ties rooms (rooms_assigned st))) of
              None \<Rightarrow> st
            | Some z \<Rightarrow>
                if z = [] then st
                else snd (assign_rooms hhmm idx s (week_of (start_dt s))
                            (zone_rooms_df ties rooms (rooms_assigned st) z) (0, st))))"

definition init_state :: state where
  "init_state = \<lparr>assignments = [], rooms_assigned = {}, room_week_assigned = {}\<rparr>"

definition run_single ::
  "tie_rank \<Rightarrow> (instant \<Rightarrow> nat) \<Rightarrow> (instant \<Rightarrow> string) \<Rightarrow> occupancy \<Rightarrow> room_row list \<Rightarrow> shift list \<Rightarrow> state" where
  "run_single ties week_of hhmm idx rooms students =
     foldl (assign_shift ties week_of hhmm idx rooms) init_state students"

section \<open>The two-week script\<close>

record state2 =
  assignments_base :: "assignment list"
  rooms_assigned_global :: "string set"

text \<open>A sort key for a column that may have missing values: pandas puts them last.\<close>

definition na_last :: "string option \<Rightarrow> nat \<times> string" where
  "na_last v = (case v of None \<Rightarrow> (1, []) | Some x \<Rightarrow> (0, x))"

text \<open>
  Lines 156--158: \<^verbatim>\<open>sort_values(by=['priority', 'building', 'room'])\<close>, a stable sort on
  the three keys.
\<close>

definition candidate :: "room_row list \<Rightarrow> string set \<Rightarrow> string \<Rightarrow> room_row list" where
  "candidate rooms assigned z =
     sort_key (\<lambda>r. (priority r, na_last (building r), room r)) (available rooms assigned z)"

text \<open>Lines 165--195, the loop over the candidate rooms of the locked zone.\<close>

fun assign_candidates ::
  "(instant \<Rightarrow> string) \<Rightarrow> occupancy \<Rightarrow> shift \<Rightarrow> room_row list \<Rightarrow>
   int \<times> string set \<times> state2 \<Rightarrow> int \<times> string set \<times> state2" where
  "assign_candidates hhmm idx s [] (time_used, used_this_shift, st) = (time_used, used_this_shift, st)"
| "assign_candidates hhmm idx s (room_row # rest) (time_used, used_this_shift, st) =
     (if room room_row \<in> used_this_shift \<or> room room_row \<in> rooms_assigned_global st
      then assign_candidates hhmm idx s rest (time_used, used_this_shift, st)
      else if has_conflict idx (room room_row) s
      then assign_candidates hhmm idx s rest (time_used, used_this_shift, st)
      else if of_int (time_used + EFFECTIVE_ROOM_CHECK_TIME) > usable_time s
      then (time_used, used_this_shift, st)
      else assign_candidates hhmm idx s rest
             (time_used + EFFECTIVE_ROOM_CHECK_TIME,
              insert (room room_row) used_this_shift,
              \<lparr>assignments_base = assignments_base st @ [make_assignment hhmm s room_row],
               rooms_assigned_global = insert (room room_row) (rooms_assigned_global st)\<rparr>))"

text \<open>
  Lines 155--197, the loop over the ranked zones: a zone without candidates is passed
  over, the first zone with candidates is locked and the loop ends after it.  The
  result is \<^verbatim>\<open>zone_locked\<close> and the state.
\<close>

fun zone_loop ::
  "(instant \<Rightarrow> string) \<Rightarrow> occupancy \<Rightarrow> room_row list \<Rightarrow> shift \<Rightarrow> string list \<Rightarrow> state2 \<Rightarrow>
   string option \<times> state2" where
  "zone_loop hhmm idx rooms s [] st = (None, st)"
| "zone_loop hhmm idx rooms s (z # zs) st =
     (if candidate rooms (rooms_assigned_global st) z = [] then zone_loop hhmm idx rooms s zs st
      else (Some z,
            snd (snd (assign_candidates hhmm idx s
                        (candidate rooms (rooms_assigned_global st) z) (0, {}, st)))))"

definition assign_shift2 ::
  "tie_rank \<Rightarrow> (instant \<Rightarrow> string) \<Rightarrow> occupancy \<Rightarrow> room_row list \<Rightarrow> state2 \<Rightarrow> shift \<Rightarrow> state2" where
  "assign_shift2 ties hhmm idx rooms st s =
     (if usable_time s \<le> 0 then st
      else snd (zone_loop hhmm idx rooms s
                  (map fst (zone_scores ties rooms (rooms_assigned_global st))) st))"

definition init_state2 :: state2 where
  "init_state2 = \<lparr>assignments_base = [], rooms_assigned_global = {}\<rparr>"

definition run_base ::
  "tie_rank \<Rightarrow> (instant \<Rightarrow> string) \<Rightarrow> occupancy \<Rightarrow> room_row list \<Rightarrow> shift list \<Rightarrow> state2" where
  "run_base ties hhmm idx rooms students = foldl (assign_shift2 ties hhmm idx rooms) init_state2 students"

subsection \<open>Splitting each shift into two weeks\<close>

text \<open>
  \<^verbatim>\<open>pd.concat\<close> of an empty list raises \<^verbatim>\<open>ValueError\<close>; selecting a column that
  a table does not have raises \<^verbatim>\<open>KeyError\<close>.
\<close>

datatype error = ValueError | KeyError

text \<open>The first occurrence of every element, in order.\<close>

definition drop_duplicates :: "'a list \<Rightarrow> 'a list" where
  "drop_duplicates xs = rev (remdups (rev xs))"

text \<open>
  \<^verbatim>\<open>groupby(["Student", "Day"], sort=False)\<close>: the groups come in the order in which
  their keys first appear, and a row whose \<^verbatim>\<open>Student\<close> is missing belongs to no group.
\<close>

definition group_keys :: "assignment list \<Rightarrow> (string \<times> string) list" where
  "group_keys df_base =
     drop_duplicates
       (List.map_filter
          (\<lambda>a. case Student a of None \<Rightarrow> None | Some n \<Rightarrow> Some (n, Day_label a)) df_base)"

definition grp :: "assignment list \<Rightarrow> string \<times> string \<Rightarrow> assignment list" where
  "grp df_base k = filter (\<lambda>a. Student a = Some (fst k) \<and> Day_label a = snd k) df_base"

text \<open>\<^verbatim>\<open>ceil(n / 2)\<close>\<close>

definition split_idx :: "nat \<Rightarrow> nat" where
  "split_idx n = nat \<lceil>(of_nat n :: rat) / 2\<rceil>"

definition w1 :: "assignment list \<Rightarrow> string \<times> string \<Rightarrow> assignment list" where
  "w1 df_base k =
     map (\<lambda>a. a\<lparr>Day_label := snd k @ '' 1''\<rparr>)
         (take (split_idx (length (grp df_base k))) (grp df_base k))"

definition w2 :: "assignment list \<Rightarrow> string \<times> string \<Rightarrow> assignment list" where
  "w2 df_base k =
     map (\<lambda>a. a\<lparr>Day_label := snd k @ '' 2''\<rparr>)
         (drop (split_idx (length (grp df_base k))) (grp df_base k))"

text \<open>Lines 203--218: \<^verbatim>\<open>parts\<close> holds both halves of every group; the result is \<^verbatim>\<open>df_out\<close>.\<close>

definition parts :: "assignment list \<Rightarrow> assignment list list" where
  "parts df_base = concat (map (\<lambda>k. [w1 df_base k, w2 df_base k]) (group_keys df_base))"

definition split_weeks :: "assignment list \<Rightarrow> error + assignment list" where
  "split_weeks df_base =
     (if df_base = [] then Inr []
      else if parts df_base = [] then Inl ValueError
      else Inr (concat (parts df_base)))"

text \<open>
  Line 228: \<^verbatim>\<open>sort_values(by=["Student", "Day", "Priority", "Building", "Room"])\<close>, stable.
\<close>

definition output_key ::
  "assignment \<Rightarrow> (nat \<times> string) \<times> string \<times> int \<times> (nat \<times> string) \<times> string" where
  "output_key a = (na_last (Student a), Day_label a, Priority a, na_last (Building a), Room a)"

definition two_weeks_assignments ::
  "tie_rank \<Rightarrow> (instant \<Rightarrow> string) \<Rightarrow> occupancy \<Rightarrow> room_row list \<Rightarrow> shift list \<Rightarrow> error + assignment list" where
  "two_weeks_assignments ties hhmm idx rooms students =
     (case split_weeks (assignments_base (run_base ties hhmm idx rooms students)) of
        Inl e \<Rightarrow> Inl e
      | Inr df_out \<Rightarrow> Inr (sort_key output_key df_out))"

section \<open>The unassigned rooms of the single-week script\<close>

text \<open>
  Lines 194--196; the projected rows are (room, building, zone, priority, type).  Line 195
  selects the column \<^verbatim>\<open>type\<close> and raises \<^verbatim>\<open>KeyError\<close> when the inventory has no
  such column (\<open>has_type\<close> is false), which the assignments tolerate.
\<close>

type_synonym unchecked_row = "string \<times> string option \<times> string \<times> int \<times> string"

definition unchecked_rooms :: "room_row list \<Rightarrow> string set \<Rightarrow> string set" where
  "unchecked_rooms rooms assigned = set (map room rooms) - assigned"

definition unchecked_key :: "unchecked_row \<Rightarrow> int \<times> (nat \<times> string) \<times> string" where
  "unchecked_key u = (case u of (r, b, z, p, t) \<Rightarrow> (p, na_last b, r))"

definition unchecked_df :: "bool \<Rightarrow> room_row list \<Rightarrow> string set \<Rightarrow> error + unchecked_row list" where
  "unchecked_df has_type rooms assigned =
     (if \<not> has_type then Inl KeyError
      else Inr (sort_key unchecked_key
             (drop_duplicates
                (map (\<lambda>r. (room r, building r, zone r, priority r, rtype r))
                     (filter (\<lambda>r. room r \<in> unchecked_rooms rooms assigned) rooms)))))"

text \<open>The rows of the file a run writes: none when the run raised.\<close>

fun written_rows :: "error + assignment list \<Rightarrow> assignment list" where
  "written_rows (Inl e) = []"
| "written_rows (Inr df) = df"


section \<open>The single-week script without the week-scoped check\<close>

text \<open>
  The variant of the single-week script in which lines 160--161, the test
  \<^verbatim>\<open>(room_name, week_num) in room_week_assigned\<close>, are removed and nothing else is changed.
\<close>

fun assign_rooms_nocheck ::
  "(instant \<Rightarrow> string) \<Rightarrow> occupancy \<Rightarrow> shift \<Rightarrow> nat \<Rightarrow> room_row list \<Rightarrow> int \<times> state \<Rightarrow> int \<times> state" where
  "assign_rooms_nocheck hhmm idx s week_num [] (time_used, st) = (time_used, st)"
| "assign_rooms_nocheck hhmm idx s week_num (room_row # rest) (time_used, st) =
     (if has_conflict idx (room room_row) s
      then assign_rooms_nocheck hhmm idx s week_num rest (time_used, st)
      else if of_int (time_used + ROOM_CHECK_TIME) > usable_time s
      then (time_used, st)
      else assign_rooms_nocheck hhmm idx s week_num rest
             (time_used + ROOM_CHECK_TIME,
              \<lparr>assignments = assignments st @ [make_assignment hhmm s room_row],
               rooms_assigned = insert (room room_row) (rooms_assigned st),
               room_week_assigned = insert (room room_row, week_num) (room_week_assigned st)\<rparr>))"

definition assign_shift_nocheck ::
  "tie_rank \<Rightarrow> (instant \<Rightarrow> nat) \<Rightarrow> (instant \<Rightarrow> string) \<Rightarrow> occupancy \<Rightarrow> room_row list \<Rightarrow> state \<Rightarrow> shift \<Rightarrow> state" where
  "assign_shift_nocheck ties week_of hhmm idx rooms st s =
     (if usable_time s \<le> 0 then st
      else (case zone_chosen rooms (rooms_assigned st)
                   (map fst (zone_scores ties rooms (rooms_assigned st))) of
              None \<Rightarrow> st
            | Some z \<Rightarrow>
                if z = [] then st
                else snd (assign_rooms_nocheck hhmm idx s (week_of (start_dt s))
                            (zone_rooms_df ties rooms (rooms_assigned st) z) (0, st))))"

definition run_single_nocheck ::
  "tie_rank \<Rightarrow> (instant \<Rightarrow> nat) \<Rightarrow> (instant \<Rightarrow> string) \<Rightarrow> occupancy \<Rightarrow> room_row list \<Rightarrow> shift list \<Rightarrow> state" where
  "run_single_nocheck ties week_of hhmm idx rooms students =
     foldl (assign_shift_nocheck ties week_of hhmm idx rooms) init_state students"

section \<open>Notions used in the statements\<close>

text \<open>The assignments created between two states of a run: those appended to the list.\<close>

definition new_assignments :: "state \<Rightarrow> state \<Rightarrow> assignment list" where
  "new_assignments st st' = drop (length (assignments st)) (assignments st')"

definition new_assignments2 :: "state2 \<Rightarrow> state2 \<Rightarrow> assignment list" where
  "new_assignments2 st st' = drop (length (assignments_base st)) (assignments_base st')"

text \<open>
  The invariant of the loop over the shifts of the single-week script: the rooms of the
  assignments are pairwise different, \<^verbatim>\<open>rooms_assigned\<close> holds exactly these rooms, they
  are rooms of the inventory, and every room of a pair in \<^verbatim>\<open>room_week_assigned\<close> is in
  \<^verbatim>\<open>rooms_assigned\<close>.
\<close>

definition state_inv :: "room_row list \<Rightarrow> state \<Rightarrow> bool" where
  "state_inv rooms st =
     (distinct (map Room (assignments st))
      \<and> rooms_assigned st = set (map Room (assignments st))
      \<and> rooms_assigned st \<subseteq> set (map room rooms)
      \<and> fst ` room_week_assigned st \<subseteq> rooms_assigned st)"

definition state2_inv :: "state2 \<Rightarrow> bool" where
  "state2_inv st =
     (distinct (map Room (assignments_base st))
      \<and> rooms_assigned_global st = set (map Room (assignments_base st)))"

section \<open>Example inputs\<close>

text \<open>
  A zone with three rooms of priorities 1, 3 and 2, a shift of 25 minutes on Monday,
  and a class in the first room that starts when the shift ends.
\<close>

definition ex_rooms :: "room_row list" where
  "ex_rooms =
     [\<lparr>room = ''B101'', building = Some ''B'', zone = ''Z'', priority = 1, rtype = ''Lab''\<rparr>,
      \<lparr>room = ''A101'', building = Some ''A'', zone = ''Z'', priority = 3, rtype = ''Lab''\<rparr>,
      \<lparr>room = ''A102'', building = Some ''A'', zone = ''Z'', priority = 2, rtype = ''Lab''\<rparr>]"

definition ex_shift :: shift where
  "ex_shift = \<lparr>person = Some ''Ann'', Day = ''Monday'', start_dt = 0, end_dt = 1500\<rparr>"

definition ex_idx :: occupancy where
  "ex_idx = [(''B101'', Some ''Monday'') \<mapsto> [(Some 1500, Some 3000)]]"

text \<open>Equal ranks everywhere: rows of equal key keep their order.\<close>

definition ex_ties :: tie_rank where
  "ex_ties keys i = 0"

definition ex_week :: "instant \<Rightarrow> nat" where
  "ex_week t = 3"

definition ex_hhmm :: "instant \<Rightarrow> string" where
  "ex_hhmm t = (if t = 0 then ''09:00'' else ''09:25'')"

text \<open>A shift of the student table that ends half an hour before it starts.\<close>

definition backwards_shift :: shift where
  "backwards_shift = \<lparr>person = Some ''Ann'', Day = ''Monday'', start_dt = 1800, end_dt = 0\<rparr>"

text \<open>Two rooms of one zone and one priority, listed with building B before building A.\<close>

definition tie_rooms :: "room_row list" where
  "tie_rooms =
     [\<lparr>room = ''B101'', building = Some ''B'', zone = ''Z'', priority = 1, rtype = ''Lab''\<rparr>,
      \<lparr>room = ''A101'', building = Some ''A'', zone = ''Z'', priority = 1, rtype = ''Lab''\<rparr>]"

definition tie_shift :: shift where
  "tie_shift = \<lparr>person = Some ''Ann'', Day = ''Tuesday'', start_dt = 0, end_dt = 600\<rparr>"

text \<open>One room whose zone cell holds white space only, so that its zone is the empty string.\<close>

definition blank_zone_rooms :: "room_row list" where
  "blank_zone_rooms =
     [\<lparr>room = ''A101'', building = Some ''A'', zone = strip ''  '', priority = 1, rtype = ''Lab''\<rparr>]"

text \<open>A confirmed class whose times do not parse, and a parser that rejects them.\<close>

definition bad_time_row :: class_row where
  "bad_time_row =
     \<lparr>Status = ''Confirmed'', day_of_week_of_first_session = ''Mon'',
      Start_Date = ''2025-06-02'', Initial_Start_Time = ''noon'', Initial_End_Time = ''late'',
      Locations = ''A101''\<rparr>"

definition no_parse :: "string \<Rightarrow> string \<Rightarrow> instant option" where
  "no_parse d t = None"

text \<open>Five assignments of one student on one day.\<close>

definition five_rooms :: "room_row list" where
  "five_rooms =
     map (\<lambda>n. \<lparr>room = n, building = Some ''A'', zone = ''Z'', priority = 1, rtype = ''Lab''\<rparr>)
         [''A1'', ''A2'', ''A3'', ''A4'', ''A5'']"

definition five_base :: "assignment list" where
  "five_base = map (make_assignment ex_hhmm ex_shift) five_rooms"

section \<open>Sorting on one key\<close>

text \<open>Whatever the ranks are, the result holds the same rows and is sorted by the key.\<close>

lemma mset_argsort_by [simp]: "mset (argsort_by ties f xs) = mset xs"
proof -
  have "mset (map snd (sort_key g (enumerate 0 xs))) = mset (map snd (enumerate 0 xs))"
    for g :: "nat \<times> 'a \<Rightarrow> int \<times> nat"
    by (simp only: mset_map mset_sort)
  then show ?thesis by (simp add: argsort_by_def)
qed

lemma set_argsort_by [simp]: "set (argsort_by ties f xs) = set xs"
  using mset_argsort_by[of ties f xs] by (rule mset_eq_setD)

lemma length_argsort_by [simp]: "length (argsort_by ties f xs) = length xs"
  using mset_argsort_by[of ties f xs] by (rule mset_eq_length)

lemma distinct_map_argsort_by [simp]:
  "distinct (map h (argsort_by ties f xs)) = distinct (map h xs)"
proof -
  have "mset (map h (argsort_by ties f xs)) = mset (map h xs)"
    by (simp only: mset_map mset_argsort_by)
  then show ?thesis by (rule mset_eq_imp_distinct_iff)
qed

lemma sorted_argsort_by [simp]: "sorted (map f (argsort_by ties f xs))"
proof -
  let ?g = "\<lambda>p. (f (snd p), ties (map f xs) (fst p))"
  let ?ys = "sort_key ?g (enumerate 0 xs)"
  have "sorted (map ?g ?ys)" by (rule sorted_sort_key)
  then have "sorted_wrt (\<lambda>p q. ?g p \<le> ?g q) ?ys" by (simp only: sorted_map)
  then have "sorted_wrt (\<lambda>p q. f (snd p) \<le> f (snd q)) ?ys"
    by (rule sorted_wrt_mono_rel[rotated]) (auto simp: less_eq_prod_def)
  then have "sorted (map (\<lambda>p. f (snd p)) ?ys)" by (simp only: sorted_map)
  then show ?thesis by (simp add: argsort_by_def o_def)
qed

section \<open>Properties of the single-week script\<close>


subsection \<open>The loop over the candidate rooms\<close>

lemma assign_rooms_new:
  "\<exists>new. assignments (snd (assign_rooms hhmm idx s wk cs (t, st))) = assignments st @ new
     \<and> (\<forall>a\<in>set new. \<exists>r\<in>set cs. a = make_assignment hhmm s r \<and> \<not> has_conflict idx (room r) s)
     \<and> fst (assign_rooms hhmm idx s wk cs (t, st)) = t + ROOM_CHECK_TIME * int (length new)
     \<and> (of_int t \<le> usable_time s \<longrightarrow> of_int (fst (assign_rooms hhmm idx s wk cs (t, st))) \<le> usable_time s)"
proof (induction cs arbitrary: t st)
  case Nil
  show ?case by simp
next
  case (Cons c cs)
  let ?st1 = "\<lparr>assignments = assignments st @ [make_assignment hhmm s c],
               rooms_assigned = insert (room c) (rooms_assigned st),
               room_week_assigned = insert (room c, wk) (room_week_assigned st)\<rparr>"
  consider (skip) "(room c, wk) \<in> room_week_assigned st \<or> has_conflict idx (room c) s"
    | (stop) "(room c, wk) \<notin> room_week_assigned st" "\<not> has_conflict idx (room c) s"
        "of_int (t + ROOM_CHECK_TIME) > usable_time s"
    | (take) "(room c, wk) \<notin> room_week_assigned st" "\<not> has_conflict idx (room c) s"
        "\<not> of_int (t + ROOM_CHECK_TIME) > usable_time s"
    by blast
  then show ?case
  proof cases
    case skip
    then have eq: "assign_rooms hhmm idx s wk (c # cs) (t, st) = assign_rooms hhmm idx s wk cs (t, st)"
      by auto
    from Cons.IH[of t st] obtain new where
      "assignments (snd (assign_rooms hhmm idx s wk cs (t, st))) = assignments st @ new"
      "\<forall>a\<in>set new. \<exists>r\<in>set cs. a = make_assignment hhmm s r \<and> \<not> has_conflict idx (room r) s"
      "fst (assign_rooms hhmm idx s wk cs (t, st)) = t + ROOM_CHECK_TIME * int (length new)"
      "of_int t \<le> usable_time s \<longrightarrow> of_int (fst (assign_rooms hhmm idx s wk cs (t, st))) \<le> usable_time s"
      by blast
    then show ?thesis unfolding eq by (intro exI[of _ new]) auto
  next
    case stop
    then have eq: "assign_rooms hhmm idx s wk (c # cs) (t, st) = (t, st)"
      by auto
    show ?thesis unfolding eq by (intro exI[of _ "[]"]) simp
  next
    case take
    then have eq: "assign_rooms hhmm idx s wk (c # cs) (t, st)
        = assign_rooms hhmm idx s wk cs (t + ROOM_CHECK_TIME, ?st1)"
      by auto
    from take have le: "of_int (t + ROOM_CHECK_TIME) \<le> usable_time s" by simp
    from Cons.IH[of "t + ROOM_CHECK_TIME" ?st1] obtain new where n:
      "assignments (snd (assign_rooms hhmm idx s wk cs (t + ROOM_CHECK_TIME, ?st1))) = assignments ?st1 @ new"
      "\<forall>a\<in>set new. \<exists>r\<in>set cs. a = make_assignment hhmm s r \<and> \<not> has_conflict idx (room r) s"
      "fst (assign_rooms hhmm idx s wk cs (t + ROOM_CHECK_TIME, ?st1)) = t + ROOM_CHECK_TIME + ROOM_CHECK_TIME * int (length new)"
      "of_int (t + ROOM_CHECK_TIME) \<le> usable_time s \<longrightarrow> of_int (fst (assign_rooms hhmm idx s wk cs (t + ROOM_CHECK_TIME, ?st1))) \<le> usable_time s"
      by blast
    show ?thesis unfolding eq
      using n le take(2) by (intro exI[of _ "make_assignment hhmm s c # new"]) (auto simp: algebra_simps)
  qed
qed

lemma Room_make_assignment [simp]: "Room (make_assignment hhmm s r) = room r"
  by (simp add: make_assignment_def)

lemma Zone_make_assignment [simp]: "Zone (make_assignment hhmm s r) = zone r"
  by (simp add: make_assignment_def)

text \<open>
  The rooms assigned so far are pairwise different when the candidates are outside the set
  \<open>A0\<close> of rooms assigned before the shift and every room assigned since is paired with
  the week of the shift.
\<close>

lemma assign_rooms_inv:
  assumes "distinct (map Room (assignments st))"
    and "rooms_assigned st = set (map Room (assignments st))"
    and "\<forall>c\<in>set cs. room c \<notin> A0"
    and "\<forall>r\<in>rooms_assigned st. r \<in> A0 \<or> (r, wk) \<in> room_week_assigned st"
    and "fst ` room_week_assigned st \<subseteq> rooms_assigned st"
  shows "distinct (map Room (assignments (snd (assign_rooms hhmm idx s wk cs (t, st)))))
     \<and> rooms_assigned (snd (assign_rooms hhmm idx s wk cs (t, st)))
         = set (map Room (assignments (snd (assign_rooms hhmm idx s wk cs (t, st)))))
     \<and> fst ` room_week_assigned (snd (assign_rooms hhmm idx s wk cs (t, st)))
         \<subseteq> rooms_assigned (snd (assign_rooms hhmm idx s wk cs (t, st)))"
  using assms
proof (induction cs arbitrary: t st)
  case Nil
  then show ?case by simp
next
  case (Cons c cs)
  let ?st1 = "\<lparr>assignments = assignments st @ [make_assignment hhmm s c],
               rooms_assigned = insert (room c) (rooms_assigned st),
               room_week_assigned = insert (room c, wk) (room_week_assigned st)\<rparr>"
  have rest: "\<forall>c\<in>set cs. room c \<notin> A0" using Cons.prems(3) by simp
  show ?case
  proof (cases "(room c, wk) \<in> room_week_assigned st \<or> has_conflict idx (room c) s")
    case True
    then have eq: "assign_rooms hhmm idx s wk (c # cs) (t, st) = assign_rooms hhmm idx s wk cs (t, st)"
      by auto
    show ?thesis unfolding eq
      by (rule Cons.IH[OF Cons.prems(1) Cons.prems(2) rest Cons.prems(4) Cons.prems(5)])
  next
    case False
    show ?thesis
    proof (cases "of_int (t + ROOM_CHECK_TIME) > usable_time s")
      case True
      with False have eq: "assign_rooms hhmm idx s wk (c # cs) (t, st) = (t, st)"
        by auto
      show ?thesis unfolding eq using Cons.prems by simp
    next
      case nostop: False
      with False have eq: "assign_rooms hhmm idx s wk (c # cs) (t, st)
          = assign_rooms hhmm idx s wk cs (t + ROOM_CHECK_TIME, ?st1)"
        by auto
      have "room c \<notin> A0" using Cons.prems(3) by simp
      with False Cons.prems(4) have fresh: "room c \<notin> rooms_assigned st" by blast
      have d: "distinct (map Room (assignments ?st1))"
        using Cons.prems(1,2) fresh by simp
      have e: "rooms_assigned ?st1 = set (map Room (assignments ?st1))"
        using Cons.prems(2) by simp
      have f: "\<forall>r\<in>rooms_assigned ?st1. r \<in> A0 \<or> (r, wk) \<in> room_week_assigned ?st1"
        using Cons.prems(4) by auto
      have g: "fst ` room_week_assigned ?st1 \<subseteq> rooms_assigned ?st1"
        using Cons.prems(5) by auto
      show ?thesis unfolding eq by (rule Cons.IH[OF d e rest f g])
    qed
  qed
qed

subsection \<open>One shift of the single-week script\<close>

lemma set_zone_rooms_df:
  "set (zone_rooms_df ties rooms A z) = {r \<in> set rooms. zone r = z \<and> room r \<notin> A}"
  by (auto simp: zone_rooms_df_def available_def)

lemma assign_shift_new:
  "\<exists>new. assignments (assign_shift ties week_of hhmm idx rooms st s) = assignments st @ new
     \<and> (\<forall>a\<in>set new. \<exists>r\<in>set rooms. a = make_assignment hhmm s r
            \<and> \<not> has_conflict idx (room r) s
            \<and> zone_chosen rooms (rooms_assigned st) (map fst (zone_scores ties rooms (rooms_assigned st)))
                = Some (zone r))
     \<and> (0 \<le> usable_time s \<longrightarrow> of_int (ROOM_CHECK_TIME * int (length new)) \<le> usable_time s)"
proof -
  let ?zc = "zone_chosen rooms (rooms_assigned st) (map fst (zone_scores ties rooms (rooms_assigned st)))"
  show ?thesis
  proof (cases "usable_time s \<le> 0 \<or> ?zc = None \<or> ?zc = Some []")
    case True
    then have "assign_shift ties week_of hhmm idx rooms st s = st"
      by (auto simp: assign_shift_def)
    then show ?thesis by (intro exI[of _ "[]"]) simp
  next
    case False
    then obtain z where z: "?zc = Some z" "z \<noteq> []" and pos: "0 < usable_time s"
      by (cases ?zc) auto
    let ?cs = "zone_rooms_df ties rooms (rooms_assigned st) z"
    have eq: "assign_shift ties week_of hhmm idx rooms st s
        = snd (assign_rooms hhmm idx s (week_of (start_dt s)) ?cs (0, st))"
      using z pos by (simp add: assign_shift_def)
    from assign_rooms_new[of hhmm idx s "week_of (start_dt s)" ?cs 0 st] obtain new where n:
      "assignments (snd (assign_rooms hhmm idx s (week_of (start_dt s)) ?cs (0, st))) = assignments st @ new"
      "\<forall>a\<in>set new. \<exists>r\<in>set ?cs. a = make_assignment hhmm s r \<and> \<not> has_conflict idx (room r) s"
      "fst (assign_rooms hhmm idx s (week_of (start_dt s)) ?cs (0, st)) = 0 + ROOM_CHECK_TIME * int (length new)"
      "of_int 0 \<le> usable_time s \<longrightarrow> of_int (fst (assign_rooms hhmm idx s (week_of (start_dt s)) ?cs (0, st))) \<le> usable_time s"
      by blast
    have a: "\<forall>a\<in>set new. \<exists>r\<in>set rooms. a = make_assignment hhmm s r
            \<and> \<not> has_conflict idx (room r) s \<and> ?zc = Some (zone r)"
      using n(2) z(1) by (fastforce simp: set_zone_rooms_df)
    have b: "of_int (ROOM_CHECK_TIME * int (length new)) \<le> usable_time s"
      using n(3,4) pos by simp
    show ?thesis unfolding eq using n(1) a b by (intro exI[of _ new]) simp
  qed
qed

lemma assign_shift_inv:
  assumes "state_inv rooms st"
  shows "state_inv rooms (assign_shift ties week_of hhmm idx rooms st s)"
proof -
  let ?zc = "zone_chosen rooms (rooms_assigned st) (map fst (zone_scores ties rooms (rooms_assigned st)))"
  show ?thesis
  proof (cases "usable_time s \<le> 0 \<or> ?zc = None \<or> ?zc = Some []")
    case True
    then have "assign_shift ties week_of hhmm idx rooms st s = st"
      by (auto simp: assign_shift_def)
    then show ?thesis using assms by simp
  next
    case False
    then obtain z where z: "?zc = Some z" "z \<noteq> []" and pos: "0 < usable_time s"
      by (cases ?zc) auto
    let ?cs = "zone_rooms_df ties rooms (rooms_assigned st) z"
    let ?st' = "snd (assign_rooms hhmm idx s (week_of (start_dt s)) ?cs (0, st))"
    have eq: "assign_shift ties week_of hhmm idx rooms st s = ?st'"
      using z pos by (simp add: assign_shift_def)
    have c: "\<forall>c\<in>set ?cs. room c \<notin> rooms_assigned st"
      by (simp add: set_zone_rooms_df)
    have i: "distinct (map Room (assignments ?st')) \<and> rooms_assigned ?st' = set (map Room (assignments ?st'))
       \<and> fst ` room_week_assigned ?st' \<subseteq> rooms_assigned ?st'"
      using assms by (intro assign_rooms_inv[OF _ _ c]) (auto simp: state_inv_def)
    from assign_shift_new[of ties week_of hhmm idx rooms st s] obtain new where n:
      "assignments ?st' = assignments st @ new"
      "\<forall>a\<in>set new. \<exists>r\<in>set rooms. a = make_assignment hhmm s r"
      unfolding eq by blast
    have "set (map Room (assignments ?st')) \<subseteq> set (map room rooms)"
      using assms n by (fastforce simp: state_inv_def)
    with i show ?thesis unfolding eq state_inv_def by blast
  qed
qed

subsection \<open>The whole run of the single-week script\<close>

lemma state_inv_init: "state_inv rooms init_state"
  by (simp add: state_inv_def init_state_def)

lemma foldl_assign_shift_inv:
  "state_inv rooms st \<Longrightarrow> state_inv rooms (foldl (assign_shift ties week_of hhmm idx rooms) st ss)"
  by (induction ss arbitrary: st) (simp_all add: assign_shift_inv)

lemma run_single_inv: "state_inv rooms (run_single ties week_of hhmm idx rooms students)"
  by (simp add: run_single_def foldl_assign_shift_inv state_inv_init)

lemma foldl_assign_shift_members:
  "a \<in> set (assignments (foldl (assign_shift ties week_of hhmm idx rooms) st ss)) \<Longrightarrow>
     a \<in> set (assignments st)
     \<or> (\<exists>s\<in>set ss. \<exists>r\<in>set rooms. a = make_assignment hhmm s r \<and> \<not> has_conflict idx (room r) s)"
proof (induction ss arbitrary: st)
  case Nil
  then show ?case by simp
next
  case (Cons s ss)
  from Cons.IH[of "assign_shift ties week_of hhmm idx rooms st s"] Cons.prems
  have "a \<in> set (assignments (assign_shift ties week_of hhmm idx rooms st s))
     \<or> (\<exists>s\<in>set ss. \<exists>r\<in>set rooms. a = make_assignment hhmm s r \<and> \<not> has_conflict idx (room r) s)"
    by simp
  moreover from assign_shift_new[of ties week_of hhmm idx rooms st s] obtain new where
    "assignments (assign_shift ties week_of hhmm idx rooms st s) = assignments st @ new"
    "\<forall>a\<in>set new. \<exists>r\<in>set rooms. a = make_assignment hhmm s r \<and> \<not> has_conflict idx (room r) s"
    by blast
  ultimately show ?case by auto
qed


section \<open>Properties of the two-week script\<close>

subsection \<open>The loop over the candidates of the locked zone\<close>

lemma assign_candidates_new:
  "\<exists>new. assignments_base (snd (snd (assign_candidates hhmm idx s cs (t, u, st)))) = assignments_base st @ new
     \<and> (\<forall>a\<in>set new. \<exists>r\<in>set cs. a = make_assignment hhmm s r \<and> \<not> has_conflict idx (room r) s)
     \<and> fst (assign_candidates hhmm idx s cs (t, u, st)) = t + EFFECTIVE_ROOM_CHECK_TIME * int (length new)
     \<and> (of_int t \<le> usable_time s \<longrightarrow> of_int (fst (assign_candidates hhmm idx s cs (t, u, st))) \<le> usable_time s)"
proof (induction cs arbitrary: t u st)
  case Nil
  show ?case by simp
next
  case (Cons c cs)
  let ?E = EFFECTIVE_ROOM_CHECK_TIME
  let ?st1 = "\<lparr>assignments_base = assignments_base st @ [make_assignment hhmm s c],
               rooms_assigned_global = insert (room c) (rooms_assigned_global st)\<rparr>"
  let ?u1 = "insert (room c) u"
  consider (skip) "room c \<in> u \<or> room c \<in> rooms_assigned_global st \<or> has_conflict idx (room c) s"
    | (stop) "room c \<notin> u" "room c \<notin> rooms_assigned_global st" "\<not> has_conflict idx (room c) s"
        "of_int (t + ?E) > usable_time s"
    | (take) "room c \<notin> u" "room c \<notin> rooms_assigned_global st" "\<not> has_conflict idx (room c) s"
        "\<not> of_int (t + ?E) > usable_time s"
    by blast
  then show ?case
  proof cases
    case skip
    then have eq: "assign_candidates hhmm idx s (c # cs) (t, u, st) = assign_candidates hhmm idx s cs (t, u, st)"
      by auto
    from Cons.IH[of t u st] obtain new where
      "assignments_base (snd (snd (assign_candidates hhmm idx s cs (t, u, st)))) = assignments_base st @ new"
      "\<forall>a\<in>set new. \<exists>r\<in>set cs. a = make_assignment hhmm s r \<and> \<not> has_conflict idx (room r) s"
      "fst (assign_candidates hhmm idx s cs (t, u, st)) = t + ?E * int (length new)"
      "of_int t \<le> usable_time s \<longrightarrow> of_int (fst (assign_candidates hhmm idx s cs (t, u, st))) \<le> usable_time s"
      by blast
    then show ?thesis unfolding eq by (intro exI[of _ new]) auto
  next
    case stop
    then have eq: "assign_candidates hhmm idx s (c # cs) (t, u, st) = (t, u, st)"
      by auto
    show ?thesis unfolding eq by (intro exI[of _ "[]"]) simp
  next
    case take
    then have eq: "assign_candidates hhmm idx s (c # cs) (t, u, st)
        = assign_candidates hhmm idx s cs (t + ?E, ?u1, ?st1)"
      by auto
    from take have le: "of_int (t + ?E) \<le> usable_time s" by simp
    from Cons.IH[of "t + ?E" ?u1 ?st1] obtain new where n:
      "assignments_base (snd (snd (assign_candidates hhmm idx s cs (t + ?E, ?u1, ?st1)))) = assignments_base ?st1 @ new"
      "\<forall>a\<in>set new. \<exists>r\<in>set cs. a = make_assignment hhmm s r \<and> \<not> has_conflict idx (room r) s"
      "fst (assign_candidates hhmm idx s cs (t + ?E, ?u1, ?st1)) = t + ?E + ?E * int (length new)"
      "of_int (t + ?E) \<le> usable_time s \<longrightarrow> of_int (fst (assign_candidates hhmm idx s cs (t + ?E, ?u1, ?st1))) \<le> usable_time s"
      by blast
    show ?thesis unfolding eq
      using n le take(3) by (intro exI[of _ "make_assignment hhmm s c # new"]) (auto simp: algebra_simps)
  qed
qed

lemma assign_candidates_inv:
  "state2_inv st \<Longrightarrow> state2_inv (snd (snd (assign_candidates hhmm idx s cs (t, u, st))))"
proof (induction cs arbitrary: t u st)
  case Nil
  then show ?case by simp
next
  case (Cons c cs)
  let ?E = EFFECTIVE_ROOM_CHECK_TIME
  let ?st1 = "\<lparr>assignments_base = assignments_base st @ [make_assignment hhmm s c],
               rooms_assigned_global = insert (room c) (rooms_assigned_global st)\<rparr>"
  show ?case
  proof (cases "room c \<in> u \<or> room c \<in> rooms_assigned_global st \<or> has_conflict idx (room c) s")
    case True
    then have eq: "assign_candidates hhmm idx s (c # cs) (t, u, st) = assign_candidates hhmm idx s cs (t, u, st)"
      by auto
    show ?thesis unfolding eq by (rule Cons.IH[OF Cons.prems])
  next
    case False
    show ?thesis
    proof (cases "of_int (t + ?E) > usable_time s")
      case True
      with False have eq: "assign_candidates hhmm idx s (c # cs) (t, u, st) = (t, u, st)"
        by auto
      show ?thesis unfolding eq using Cons.prems by simp
    next
      case nostop: False
      with False have eq: "assign_candidates hhmm idx s (c # cs) (t, u, st)
          = assign_candidates hhmm idx s cs (t + ?E, insert (room c) u, ?st1)"
        by auto
      have "state2_inv ?st1"
        using Cons.prems False by (simp add: state2_inv_def)
      then show ?thesis unfolding eq by (rule Cons.IH)
    qed
  qed
qed

subsection \<open>One shift of the two-week script\<close>

lemma set_candidate:
  "set (candidate rooms A z) = {r \<in> set rooms. zone r = z \<and> room r \<notin> A}"
  by (auto simp: candidate_def available_def)

lemma zone_loop_new:
  "\<exists>new. assignments_base (snd (zone_loop hhmm idx rooms s zs st)) = assignments_base st @ new
     \<and> (\<forall>a\<in>set new. \<exists>r\<in>set rooms. a = make_assignment hhmm s r
            \<and> \<not> has_conflict idx (room r) s
            \<and> fst (zone_loop hhmm idx rooms s zs st) = Some (zone r))
     \<and> (0 \<le> usable_time s \<longrightarrow> of_int (EFFECTIVE_ROOM_CHECK_TIME * int (length new)) \<le> usable_time s)"
proof (induction zs)
  case Nil
  show ?case by (intro exI[of _ "[]"]) simp
next
  case (Cons z zs)
  let ?cs = "candidate rooms (rooms_assigned_global st) z"
  show ?case
  proof (cases "?cs = []")
    case True
    then have eq: "zone_loop hhmm idx rooms s (z # zs) st = zone_loop hhmm idx rooms s zs st"
      by simp
    show ?thesis unfolding eq by (rule Cons.IH)
  next
    case False
    then have eq: "zone_loop hhmm idx rooms s (z # zs) st
        = (Some z, snd (snd (assign_candidates hhmm idx s ?cs (0, {}, st))))"
      by simp
    from assign_candidates_new[of hhmm idx s ?cs 0 "{}" st] obtain new where n:
      "assignments_base (snd (snd (assign_candidates hhmm idx s ?cs (0, {}, st)))) = assignments_base st @ new"
      "\<forall>a\<in>set new. \<exists>r\<in>set ?cs. a = make_assignment hhmm s r \<and> \<not> has_conflict idx (room r) s"
      "fst (assign_candidates hhmm idx s ?cs (0, {}, st)) = 0 + EFFECTIVE_ROOM_CHECK_TIME * int (length new)"
      "of_int 0 \<le> usable_time s \<longrightarrow> of_int (fst (assign_candidates hhmm idx s ?cs (0, {}, st))) \<le> usable_time s"
      by blast
    have a: "\<forall>a\<in>set new. \<exists>r\<in>set rooms. a = make_assignment hhmm s r
            \<and> \<not> has_conflict idx (room r) s \<and> Some z = Some (zone r)"
      using n(2) by (fastforce simp: set_candidate)
    have b: "0 \<le> usable_time s \<longrightarrow> of_int (EFFECTIVE_ROOM_CHECK_TIME * int (length new)) \<le> usable_time s"
      using n(3,4) by simp
    show ?thesis unfolding eq using n(1) a b by (intro exI[of _ new]) simp
  qed
qed

lemma zone_loop_inv:
  "state2_inv st \<Longrightarrow> state2_inv (snd (zone_loop hhmm idx rooms s zs st))"
  by (induction zs) (simp_all add: assign_candidates_inv)

lemma assign_shift2_new:
  "\<exists>new. assignments_base (assign_shift2 ties hhmm idx rooms st s) = assignments_base st @ new
     \<and> (\<forall>a\<in>set new. \<exists>r\<in>set rooms. a = make_assignment hhmm s r
            \<and> \<not> has_conflict idx (room r) s
            \<and> fst (zone_loop hhmm idx rooms s (map fst (zone_scores ties rooms (rooms_assigned_global st))) st)
                = Some (zone r))
     \<and> (0 \<le> usable_time s \<longrightarrow> of_int (EFFECTIVE_ROOM_CHECK_TIME * int (length new)) \<le> usable_time s)"
proof (cases "usable_time s \<le> 0")
  case True
  then have "assign_shift2 ties hhmm idx rooms st s = st"
    by (simp add: assign_shift2_def)
  then show ?thesis by (intro exI[of _ "[]"]) simp
next
  case False
  then have eq: "assign_shift2 ties hhmm idx rooms st s
      = snd (zone_loop hhmm idx rooms s (map fst (zone_scores ties rooms (rooms_assigned_global st))) st)"
    by (simp add: assign_shift2_def)
  show ?thesis unfolding eq by (rule zone_loop_new)
qed

lemma assign_shift2_inv: "state2_inv st \<Longrightarrow> state2_inv (assign_shift2 ties hhmm idx rooms st s)"
  by (simp add: assign_shift2_def zone_loop_inv)

subsection \<open>The whole run of the two-week script before the split\<close>

lemma foldl_assign_shift2_inv:
  "state2_inv st \<Longrightarrow> state2_inv (foldl (assign_shift2 ties hhmm idx rooms) st ss)"
  by (induction ss arbitrary: st) (simp_all add: assign_shift2_inv)

lemma state2_inv_init: "state2_inv init_state2"
  by (simp add: state2_inv_def init_state2_def)

lemma run_base_inv: "state2_inv (run_base ties hhmm idx rooms students)"
  unfolding run_base_def by (rule foldl_assign_shift2_inv[OF state2_inv_init])

lemma foldl_assign_shift2_members:
  "a \<in> set (assignments_base (foldl (assign_shift2 ties hhmm idx rooms) st ss)) \<Longrightarrow>
     a \<in> set (assignments_base st)
     \<or> (\<exists>s\<in>set ss. \<exists>r\<in>set rooms. a = make_assignment hhmm s r \<and> \<not> has_conflict idx (room r) s)"
proof (induction ss arbitrary: st)
  case Nil
  then show ?case by simp
next
  case (Cons s ss)
  from Cons.IH[of "assign_shift2 ties hhmm idx rooms st s"] Cons.prems
  have "a \<in> set (assignments_base (assign_shift2 ties hhmm idx rooms st s))
     \<or> (\<exists>s\<in>set ss. \<exists>r\<in>set rooms. a = make_assignment hhmm s r \<and> \<not> has_conflict idx (room r) s)"
    by simp
  moreover from assign_shift2_new[of ties hhmm idx rooms st s] obtain new where
    "assignments_base (assign_shift2 ties hhmm idx rooms st s) = assignments_base st @ new"
    "\<forall>a\<in>set new. \<exists>r\<in>set rooms. a = make_assignment hhmm s r \<and> \<not> has_conflict idx (room r) s"
    by blast
  ultimately show ?case by auto
qed


section \<open>The time budget of a shift\<close>

lemma ROOM_CHECK_TIME_10: "ROOM_CHECK_TIME = 10"
  by (simp add: ROOM_CHECK_TIME_def)

lemma EFFECTIVE_ROOM_CHECK_TIME_5: "EFFECTIVE_ROOM_CHECK_TIME = 5"
  by (simp add: EFFECTIVE_ROOM_CHECK_TIME_def py_round_def ROOM_CHECK_TIME_def HALF_TIME_FACTOR_def)

lemma usable_time_nonneg: "start_dt s \<le> end_dt s \<Longrightarrow> 0 \<le> usable_time s"
  by (simp add: usable_time_def SHIFT_START_END_BUFFER_def)

lemma new_assignments_budget:
  "0 \<le> usable_time s \<Longrightarrow>
   of_int (int (length (new_assignments st (assign_shift ties week_of hhmm idx rooms st s))) * ROOM_CHECK_TIME)
     \<le> usable_time s"
proof -
  assume u: "0 \<le> usable_time s"
  from assign_shift_new[of ties week_of hhmm idx rooms st s] obtain new where
    n: "assignments (assign_shift ties week_of hhmm idx rooms st s) = assignments st @ new"
    and b: "0 \<le> usable_time s \<longrightarrow> of_int (ROOM_CHECK_TIME * int (length new)) \<le> usable_time s"
    by blast
  have "new_assignments st (assign_shift ties week_of hhmm idx rooms st s) = new"
    by (simp add: new_assignments_def n)
  with b u show ?thesis by (simp add: mult.commute)
qed

lemma new_assignments2_budget:
  "0 \<le> usable_time s \<Longrightarrow>
   of_int (int (length (new_assignments2 st (assign_shift2 ties hhmm idx rooms st s))) * EFFECTIVE_ROOM_CHECK_TIME)
     \<le> usable_time s"
proof -
  assume u: "0 \<le> usable_time s"
  from assign_shift2_new[of ties hhmm idx rooms st s] obtain new where
    n: "assignments_base (assign_shift2 ties hhmm idx rooms st s) = assignments_base st @ new"
    and b: "0 \<le> usable_time s \<longrightarrow> of_int (EFFECTIVE_ROOM_CHECK_TIME * int (length new)) \<le> usable_time s"
    by blast
  have "new_assignments2 st (assign_shift2 ties hhmm idx rooms st s) = new"
    by (simp add: new_assignments2_def n)
  with b u show ?thesis by (simp add: mult.commute)
qed

text \<open>A shift that ends when or before it starts is passed over by both scripts.\<close>

lemma shift_without_usable_time_skipped:
  "usable_time s \<le> 0 \<Longrightarrow>
   assign_shift ties week_of hhmm idx rooms st s = st \<and> assign_shift2 ties hhmm idx rooms st2 s = st2"
  by (simp add: assign_shift_def assign_shift2_def)

lemma short_shift_no_assignments:
  assumes "0 \<le> usable_time s" "usable_time s < of_int ROOM_CHECK_TIME"
  shows "new_assignments st (assign_shift ties week_of hhmm idx rooms st s) = []"
proof -
  let ?n = "length (new_assignments st (assign_shift ties week_of hhmm idx rooms st s))"
  have "of_int (int ?n * ROOM_CHECK_TIME) < (of_int ROOM_CHECK_TIME :: rat)"
    using new_assignments_budget[OF assms(1), of st ties week_of hhmm idx rooms] assms(2) by simp
  then have "int ?n * ROOM_CHECK_TIME < ROOM_CHECK_TIME"
    by (simp only: of_int_less_iff)
  then have "?n = 0" by (simp add: ROOM_CHECK_TIME_10)
  then show ?thesis by simp
qed

text \<open>
  C3 does not hold for every shift of the student table: a shift that ends before it
  starts is kept by the cleaning and passed over by both scripts, and the time its zero
  assignments take, none, is more than its negative usable minutes.
\<close>

theorem backwards_shift_exceeds_budget:
  "usable_time backwards_shift = - 30
   \<and> new_assignments init_state
        (assign_shift ex_ties ex_week ex_hhmm ex_idx ex_rooms init_state backwards_shift) = []
   \<and> \<not> of_int (int (length (new_assignments init_state
              (assign_shift ex_ties ex_week ex_hhmm ex_idx ex_rooms init_state backwards_shift)))
            * ROOM_CHECK_TIME) \<le> usable_time backwards_shift
   \<and> new_assignments2 init_state2
        (assign_shift2 ex_ties ex_hhmm ex_idx ex_rooms init_state2 backwards_shift) = []
   \<and> \<not> of_int (int (length (new_assignments2 init_state2
              (assign_shift2 ex_ties ex_hhmm ex_idx ex_rooms init_state2 backwards_shift)))
            * EFFECTIVE_ROOM_CHECK_TIME) \<le> usable_time backwards_shift"
proof -
  have u: "usable_time backwards_shift = - 30"
    by (simp add: usable_time_def backwards_shift_def SHIFT_START_END_BUFFER_def)
  then have "usable_time backwards_shift \<le> 0" by simp
  then have "assign_shift ex_ties ex_week ex_hhmm ex_idx ex_rooms init_state backwards_shift = init_state"
    and "assign_shift2 ex_ties ex_hhmm ex_idx ex_rooms init_state2 backwards_shift = init_state2"
    using shift_without_usable_time_skipped by blast+
  then show ?thesis
    by (simp add: u new_assignments_def new_assignments2_def init_state_def init_state2_def)
qed

text \<open>
  C3, amended.  For every shift whose end is not before its start, the number of rooms assigned
  in the shift times the check time of a room (10 minutes in the single-week script, 5
  in the two-week script) is at most the usable minutes of the shift; a shift of 8
  minutes gets no assignment in the single-week script, whatever the rooms are.
\<close>

theorem time_budget_respected:
  assumes "start_dt s \<le> end_dt s"
  shows "of_int (int (length (new_assignments st (assign_shift ties week_of hhmm idx rooms st s)))
             * ROOM_CHECK_TIME) \<le> usable_time s
     \<and> ROOM_CHECK_TIME = 10
     \<and> of_int (int (length (new_assignments2 st2 (assign_shift2 ties hhmm idx rooms st2 s)))
             * EFFECTIVE_ROOM_CHECK_TIME) \<le> usable_time s
     \<and> EFFECTIVE_ROOM_CHECK_TIME = 5
     \<and> new_assignments st
         (assign_shift ties week_of hhmm idx rooms st (s\<lparr>end_dt := start_dt s + 8 * 60\<rparr>)) = []"
proof -
  have u: "0 \<le> usable_time s" using assms by (rule usable_time_nonneg)
  have e: "usable_time (s\<lparr>end_dt := start_dt s + 8 * 60\<rparr>) = 8"
    by (simp add: usable_time_def SHIFT_START_END_BUFFER_def)
  have "new_assignments st
         (assign_shift ties week_of hhmm idx rooms st (s\<lparr>end_dt := start_dt s + 8 * 60\<rparr>)) = []"
    by (rule short_shift_no_assignments) (unfold e, simp_all add: ROOM_CHECK_TIME_10)
  with new_assignments_budget[OF u] new_assignments2_budget[OF u]
    ROOM_CHECK_TIME_10 EFFECTIVE_ROOM_CHECK_TIME_5
  show ?thesis by blast
qed

lemma assignments_init [simp]: "assignments init_state = []"
  by (simp add: init_state_def)

lemma assignments_base_init [simp]: "assignments_base init_state2 = []"
  by (simp add: init_state2_def)

lemma ex_shift_single:
  "assignments (assign_shift ex_ties ex_week ex_hhmm ex_idx ex_rooms init_state ex_shift)
     = [make_assignment ex_hhmm ex_shift (ex_rooms ! 0), make_assignment ex_hhmm ex_shift (ex_rooms ! 2)]"
  by code_simp

lemma ex_shift_two_week:
  "assignments_base (assign_shift2 ex_ties ex_hhmm ex_idx ex_rooms init_state2 ex_shift)
     = [make_assignment ex_hhmm ex_shift (ex_rooms ! 0), make_assignment ex_hhmm ex_shift (ex_rooms ! 2),
        make_assignment ex_hhmm ex_shift (ex_rooms ! 1)]"
  by code_simp

theorem time_budget_respected_witness:
  "start_dt ex_shift \<le> end_dt ex_shift
   \<and> length (new_assignments init_state (assign_shift ex_ties ex_week ex_hhmm ex_idx ex_rooms init_state ex_shift)) = 2
   \<and> of_int (int (length (new_assignments init_state
          (assign_shift ex_ties ex_week ex_hhmm ex_idx ex_rooms init_state ex_shift))) * ROOM_CHECK_TIME)
       \<le> usable_time ex_shift
   \<and> usable_time ex_shift = 25"
proof -
  have h: "start_dt ex_shift \<le> end_dt ex_shift" by (simp add: ex_shift_def)
  have l: "length (new_assignments init_state
      (assign_shift ex_ties ex_week ex_hhmm ex_idx ex_rooms init_state ex_shift)) = 2"
    by (simp add: new_assignments_def ex_shift_single)
  have u: "usable_time ex_shift = 25"
    by (simp add: usable_time_def ex_shift_def SHIFT_START_END_BUFFER_def)
  from time_budget_respected[OF h, of init_state ex_ties ex_week ex_hhmm ex_idx ex_rooms]
  have "of_int (int (length (new_assignments init_state
          (assign_shift ex_ties ex_week ex_hhmm ex_idx ex_rooms init_state ex_shift))) * ROOM_CHECK_TIME)
       \<le> usable_time ex_shift"
    by blast
  with h l u show ?thesis by blast
qed

section \<open>One zone per shift\<close>

lemma new_assignments_zone:
  "a \<in> set (new_assignments st (assign_shift ties week_of hhmm idx rooms st s)) \<Longrightarrow>
   zone_chosen rooms (rooms_assigned st) (map fst (zone_scores ties rooms (rooms_assigned st))) = Some (Zone a)"
proof -
  assume a: "a \<in> set (new_assignments st (assign_shift ties week_of hhmm idx rooms st s))"
  from assign_shift_new[of ties week_of hhmm idx rooms st s] obtain new where
    n: "assignments (assign_shift ties week_of hhmm idx rooms st s) = assignments st @ new"
    and z: "\<forall>a\<in>set new. \<exists>r\<in>set rooms. a = make_assignment hhmm s r
            \<and> \<not> has_conflict idx (room r) s
            \<and> zone_chosen rooms (rooms_assigned st) (map fst (zone_scores ties rooms (rooms_assigned st)))
                = Some (zone r)"
    by blast
  have "new_assignments st (assign_shift ties week_of hhmm idx rooms st s) = new"
    by (simp add: new_assignments_def n)
  with a z show ?thesis by fastforce
qed

lemma new_assignments2_zone:
  "a \<in> set (new_assignments2 st (assign_shift2 ties hhmm idx rooms st s)) \<Longrightarrow>
   fst (zone_loop hhmm idx rooms s (map fst (zone_scores ties rooms (rooms_assigned_global st))) st)
     = Some (Zone a)"
proof -
  assume a: "a \<in> set (new_assignments2 st (assign_shift2 ties hhmm idx rooms st s))"
  from assign_shift2_new[of ties hhmm idx rooms st s] obtain new where
    n: "assignments_base (assign_shift2 ties hhmm idx rooms st s) = assignments_base st @ new"
    and z: "\<forall>a\<in>set new. \<exists>r\<in>set rooms. a = make_assignment hhmm s r
            \<and> \<not> has_conflict idx (room r) s
            \<and> fst (zone_loop hhmm idx rooms s (map fst (zone_scores ties rooms (rooms_assigned_global st))) st)
                = Some (zone r)"
    by blast
  have "new_assignments2 st (assign_shift2 ties hhmm idx rooms st s) = new"
    by (simp add: new_assignments2_def n)
  with a z show ?thesis by fastforce
qed

text \<open>
  C4.  In both scripts every assignment created during a shift carries the zone chosen
  for that shift (\<^verbatim>\<open>zone_chosen\<close>, \<^verbatim>\<open>zone_locked\<close>), and the candidate rooms the shift
  goes through are all rooms of that zone.
\<close>

theorem single_zone_per_shift:
  "(\<forall>a\<in>set (new_assignments st (assign_shift ties week_of hhmm idx rooms st s)).
       zone_chosen rooms (rooms_assigned st) (map fst (zone_scores ties rooms (rooms_assigned st)))
         = Some (Zone a))
   \<and> (\<forall>r\<in>set (zone_rooms_df ties rooms (rooms_assigned st) z). zone r = z)
   \<and> (\<forall>a\<in>set (new_assignments2 st2 (assign_shift2 ties hhmm idx rooms st2 s)).
       fst (zone_loop hhmm idx rooms s (map fst (zone_scores ties rooms (rooms_assigned_global st2))) st2)
         = Some (Zone a))
   \<and> (\<forall>r\<in>set (candidate rooms (rooms_assigned_global st2) z). zone r = z)"
  using new_assignments_zone[of _ st ties week_of hhmm idx rooms s]
    new_assignments2_zone[of _ st2 ties hhmm idx rooms s]
  by (simp add: set_zone_rooms_df set_candidate)

theorem single_zone_per_shift_witness:
  "make_assignment ex_hhmm ex_shift (ex_rooms ! 0)
     \<in> set (new_assignments init_state (assign_shift ex_ties ex_week ex_hhmm ex_idx ex_rooms init_state ex_shift))
   \<and> zone_chosen ex_rooms (rooms_assigned init_state)
        (map fst (zone_scores ex_ties ex_rooms (rooms_assigned init_state))) = Some ''Z''
   \<and> ex_rooms ! 1 \<in> set (zone_rooms_df ex_ties ex_rooms (rooms_assigned init_state) ''Z'')
   \<and> make_assignment ex_hhmm ex_shift (ex_rooms ! 1)
     \<in> set (new_assignments2 init_state2 (assign_shift2 ex_ties ex_hhmm ex_idx ex_rooms init_state2 ex_shift))
   \<and> fst (zone_loop ex_hhmm ex_idx ex_rooms ex_shift
        (map fst (zone_scores ex_ties ex_rooms (rooms_assigned_global init_state2))) init_state2) = Some ''Z''
   \<and> ex_rooms ! 1 \<in> set (candidate ex_rooms (rooms_assigned_global init_state2) ''Z'')"
proof -
  let ?a = "make_assignment ex_hhmm ex_shift (ex_rooms ! 0)"
  let ?b = "make_assignment ex_hhmm ex_shift (ex_rooms ! 1)"
  have m1: "?a \<in> set (new_assignments init_state
      (assign_shift ex_ties ex_week ex_hhmm ex_idx ex_rooms init_state ex_shift))"
    by (simp add: new_assignments_def ex_shift_single)
  have m2: "?b \<in> set (new_assignments2 init_state2
      (assign_shift2 ex_ties ex_hhmm ex_idx ex_rooms init_state2 ex_shift))"
    by (simp add: new_assignments2_def ex_shift_two_week)
  have c1: "ex_rooms ! 1 \<in> set (zone_rooms_df ex_ties ex_rooms (rooms_assigned init_state) ''Z'')"
    by (simp add: set_zone_rooms_df ex_rooms_def init_state_def)
  have c2: "ex_rooms ! 1 \<in> set (candidate ex_rooms (rooms_assigned_global init_state2) ''Z'')"
    by (simp add: set_candidate ex_rooms_def init_state2_def)
  have za: "Zone ?a = ''Z''" and zb: "Zone ?b = ''Z''"
    by (simp_all add: ex_rooms_def)
  note t = single_zone_per_shift[of init_state ex_ties ex_week ex_hhmm ex_idx ex_rooms ex_shift "''Z''" init_state2]
  from t m1 za have z1: "zone_chosen ex_rooms (rooms_assigned init_state)
        (map fst (zone_scores ex_ties ex_rooms (rooms_assigned init_state))) = Some ''Z''"
    by metis
  from t m2 zb have z2: "fst (zone_loop ex_hhmm ex_idx ex_rooms ex_shift
        (map fst (zone_scores ex_ties ex_rooms (rooms_assigned_global init_state2))) init_state2) = Some ''Z''"
    by metis
  from m1 z1 c1 m2 z2 c2 show ?thesis by blast
qed


section \<open>The week split\<close>

lemma split_idx_half: "split_idx n = (n + 1) div 2"
proof -
  have "\<lceil>(of_nat n :: rat) / 2\<rceil> = (int n + 1) div 2"
  proof (cases "even n")
    case True
    then obtain k where k: "n = 2 * k" by (auto elim: evenE)
    show ?thesis by (simp add: k)
  next
    case False
    then obtain k where k: "n = 2 * k + 1" by (auto elim: oddE)
    have "\<lceil>(of_nat n :: rat) / 2\<rceil> = int k + 1"
      by (rule ceiling_unique) (simp_all add: k field_simps)
    then show ?thesis by (simp add: k)
  qed
  then show ?thesis by (simp add: split_idx_def nat_div_distrib nat_add_distrib)
qed

lemma distinct_drop_duplicates [simp]: "distinct (drop_duplicates xs)"
  by (simp add: drop_duplicates_def)

lemma set_drop_duplicates [simp]: "set (drop_duplicates xs) = set xs"
  by (simp add: drop_duplicates_def)

lemma set_map_filter:
  "set (List.map_filter f xs) = {y. \<exists>x\<in>set xs. f x = Some y}"
  by (induction xs) (auto split: option.splits)

lemma concat_parts:
  "concat (parts df_base) = concat (map (\<lambda>k. w1 df_base k @ w2 df_base k) (group_keys df_base))"
proof -
  have "concat (concat (map (\<lambda>k. [w1 df_base k, w2 df_base k]) ks))
      = concat (map (\<lambda>k. w1 df_base k @ w2 df_base k) ks)" for ks
    by (induction ks) simp_all
  then show ?thesis by (simp add: parts_def)
qed

lemma grp_empty_if_no_key:
  "k \<notin> set (group_keys df_base) \<Longrightarrow> grp df_base k = []"
proof -
  assume k: "k \<notin> set (group_keys df_base)"
  have "\<not> (Student a = Some (fst k) \<and> Day_label a = snd k)" if "a \<in> set df_base" for a
  proof
    assume "Student a = Some (fst k) \<and> Day_label a = snd k"
    with that have "k \<in> set (group_keys df_base)"
      by (force simp: group_keys_def set_map_filter)
    with k show False by contradiction
  qed
  then show ?thesis by (simp add: grp_def)
qed

text \<open>A row of a half carries the student of its group and the relabelled day.\<close>

lemma in_w1:
  "a \<in> set (w1 df_base k) \<Longrightarrow> Student a = Some (fst k) \<and> Day_label a = snd k @ '' 1''"
  by (auto simp: w1_def grp_def dest!: in_set_takeD)

lemma in_w2:
  "a \<in> set (w2 df_base k) \<Longrightarrow> Student a = Some (fst k) \<and> Day_label a = snd k @ '' 2''"
  by (auto simp: w2_def grp_def dest!: in_set_dropD)

lemma grp_w1:
  "grp (w1 df_base k) k' = (if k' = (fst k, snd k @ '' 1'') then w1 df_base k else [])"
proof (cases "k' = (fst k, snd k @ '' 1'')")
  case True
  then show ?thesis using in_w1[of _ df_base k] by (simp add: grp_def)
next
  case False
  then have "\<not> (Student a = Some (fst k') \<and> Day_label a = snd k')" if "a \<in> set (w1 df_base k)" for a
    using in_w1[OF that] by (cases k') auto
  with False show ?thesis by (simp add: grp_def)
qed

lemma grp_w2:
  "grp (w2 df_base k) k' = (if k' = (fst k, snd k @ '' 2'') then w2 df_base k else [])"
proof (cases "k' = (fst k, snd k @ '' 2'')")
  case True
  then show ?thesis using in_w2[of _ df_base k] by (simp add: grp_def)
next
  case False
  then have "\<not> (Student a = Some (fst k') \<and> Day_label a = snd k')" if "a \<in> set (w2 df_base k)" for a
    using in_w2[OF that] by (cases k') auto
  with False show ?thesis by (simp add: grp_def)
qed

lemma grp_append: "grp (xs @ ys) k = grp xs k @ grp ys k"
  by (simp add: grp_def)

lemma grp_concat_single:
  assumes "distinct ks" and "\<And>k. grp (f k) key = (if k = k0 then g else [])"
  shows "grp (concat (map f ks)) key = (if k0 \<in> set ks then g else [])"
  using assms(1)
proof (induction ks)
  case Nil
  show ?case by (simp add: grp_def)
next
  case (Cons k ks)
  then show ?case by (auto simp: grp_append assms(2))
qed

lemma grp_concat_w1:
  "distinct ks \<Longrightarrow>
   grp (concat (map (\<lambda>k. w1 df_base k @ w2 df_base k) ks)) (n, d @ '' 1'')
     = (if (n, d) \<in> set ks then w1 df_base (n, d) else [])"
proof (rule grp_concat_single)
  fix k
  show "grp (w1 df_base k @ w2 df_base k) (n, d @ '' 1'')
      = (if k = (n, d) then w1 df_base (n, d) else [])"
    by (cases k) (auto simp: grp_append grp_w1 grp_w2)
qed

lemma grp_concat_w2:
  "distinct ks \<Longrightarrow>
   grp (concat (map (\<lambda>k. w1 df_base k @ w2 df_base k) ks)) (n, d @ '' 2'')
     = (if (n, d) \<in> set ks then w2 df_base (n, d) else [])"
proof (rule grp_concat_single)
  fix k
  show "grp (w1 df_base k @ w2 df_base k) (n, d @ '' 2'')
      = (if k = (n, d) then w2 df_base (n, d) else [])"
    by (cases k) (auto simp: grp_append grp_w1 grp_w2)
qed

lemma distinct_group_keys [simp]: "distinct (group_keys df_base)"
  by (simp add: group_keys_def)

lemma grp_df_out:
  assumes "split_weeks df_base = Inr df_out"
  shows "grp df_out (n, d @ '' 1'') = w1 df_base (n, d)"
    and "grp df_out (n, d @ '' 2'') = w2 df_base (n, d)"
proof -
  have e1: "w1 df_base (n, d) = []" and e2: "w2 df_base (n, d) = []"
    if "(n, d) \<notin> set (group_keys df_base)"
    using grp_empty_if_no_key[OF that] by (simp_all add: w1_def w2_def)
  have o: "df_out = concat (map (\<lambda>k. w1 df_base k @ w2 df_base k) (group_keys df_base))"
  proof (cases "df_base = []")
    case True
    with assms show ?thesis by (auto simp: split_weeks_def group_keys_def drop_duplicates_def)
  next
    case False
    with assms show ?thesis by (auto simp: split_weeks_def concat_parts split: if_splits)
  qed
  show "grp df_out (n, d @ '' 1'') = w1 df_base (n, d)"
    unfolding o using e1 by (simp add: grp_concat_w1)
  show "grp df_out (n, d @ '' 2'') = w2 df_base (n, d)"
    unfolding o using e2 by (simp add: grp_concat_w2)
qed

text \<open>
  C5.  When the split returns \<open>df_out\<close>: for every student and day, with \<open>n\<close> the
  number of assignments of that student and day in greedy order, the rows of \<open>df_out\<close>
  labelled with week 1 are the first \<open>ceil(n/2) = (n + 1) div 2\<close> of them and the rows
  labelled with week 2 are the others, each half relabelled and in greedy order; the
  counts are \<open>(n + 1) div 2\<close> and \<open>n - (n + 1) div 2\<close> and add up to \<open>n\<close>.
\<close>

theorem week_split_conservation:
  assumes "split_weeks df_base = Inr df_out"
  shows "grp df_out (student_name, day @ '' 1'')
       = map (\<lambda>a. a\<lparr>Day_label := day @ '' 1''\<rparr>)
           (take ((length (grp df_base (student_name, day)) + 1) div 2) (grp df_base (student_name, day)))
     \<and> grp df_out (student_name, day @ '' 2'')
       = map (\<lambda>a. a\<lparr>Day_label := day @ '' 2''\<rparr>)
           (drop ((length (grp df_base (student_name, day)) + 1) div 2) (grp df_base (student_name, day)))
     \<and> length (grp df_out (student_name, day @ '' 1''))
       = (length (grp df_base (student_name, day)) + 1) div 2
     \<and> length (grp df_out (student_name, day @ '' 2''))
       = length (grp df_base (student_name, day)) - (length (grp df_base (student_name, day)) + 1) div 2
     \<and> length (grp df_out (student_name, day @ '' 1'')) + length (grp df_out (student_name, day @ '' 2''))
       = length (grp df_base (student_name, day))"
  unfolding grp_df_out[OF assms]
  by (simp add: w1_def w2_def split_idx_half)

lemma split_weeks_five_base:
  "split_weeks five_base
     = Inr (map (\<lambda>a. a\<lparr>Day_label := ''Monday 1''\<rparr>) (take 3 five_base)
          @ map (\<lambda>a. a\<lparr>Day_label := ''Monday 2''\<rparr>) (drop 3 five_base))"
  by code_simp

theorem week_split_conservation_witness:
  "split_weeks five_base
     = Inr (map (\<lambda>a. a\<lparr>Day_label := ''Monday 1''\<rparr>) (take 3 five_base)
          @ map (\<lambda>a. a\<lparr>Day_label := ''Monday 2''\<rparr>) (drop 3 five_base))
   \<and> length (grp five_base (''Ann'', ''Monday'')) = 5
   \<and> map Room (grp (map (\<lambda>a. a\<lparr>Day_label := ''Monday 1''\<rparr>) (take 3 five_base)
          @ map (\<lambda>a. a\<lparr>Day_label := ''Monday 2''\<rparr>) (drop 3 five_base)) (''Ann'', ''Monday 1''))
       = [''A1'', ''A2'', ''A3'']
   \<and> map Room (grp (map (\<lambda>a. a\<lparr>Day_label := ''Monday 1''\<rparr>) (take 3 five_base)
          @ map (\<lambda>a. a\<lparr>Day_label := ''Monday 2''\<rparr>) (drop 3 five_base)) (''Ann'', ''Monday 2''))
       = [''A4'', ''A5'']"
proof -
  have g: "grp five_base (''Ann'', ''Monday'') = five_base"
    by code_simp
  have l: "length five_base = 5"
    by (simp add: five_base_def five_rooms_def)
  have r: "map Room five_base = [''A1'', ''A2'', ''A3'', ''A4'', ''A5'']"
    by (simp add: five_base_def five_rooms_def)
  note t = week_split_conservation[OF split_weeks_five_base, of "''Ann''" "''Monday''"]
  have a: "map Room (grp (map (\<lambda>a. a\<lparr>Day_label := ''Monday 1''\<rparr>) (take 3 five_base)
          @ map (\<lambda>a. a\<lparr>Day_label := ''Monday 2''\<rparr>) (drop 3 five_base)) (''Ann'', ''Monday 1''))
       = take 3 (map Room five_base)"
    using t by (simp add: g l take_map o_def)
  have b: "map Room (grp (map (\<lambda>a. a\<lparr>Day_label := ''Monday 1''\<rparr>) (take 3 five_base)
          @ map (\<lambda>a. a\<lparr>Day_label := ''Monday 2''\<rparr>) (drop 3 five_base)) (''Ann'', ''Monday 2''))
       = drop 3 (map Room five_base)"
    using t by (simp add: g l drop_map o_def)
  show ?thesis using split_weeks_five_base a b by (simp add: g l r)
qed


section \<open>The rows of the two-week output\<close>

lemma split_weeks_Inr:
  "split_weeks df_base = Inr df_out \<Longrightarrow>
   df_out = concat (map (\<lambda>k. w1 df_base k @ w2 df_base k) (group_keys df_base))"
proof (cases "df_base = []")
  case True
  assume "split_weeks df_base = Inr df_out"
  with True show ?thesis by (auto simp: split_weeks_def group_keys_def drop_duplicates_def)
next
  case False
  assume "split_weeks df_base = Inr df_out"
  with False show ?thesis by (auto simp: split_weeks_def concat_parts split: if_splits)
qed

lemma Room_halves: "map Room (w1 df_base k @ w2 df_base k) = map Room (grp df_base k)"
proof -
  let ?n = "split_idx (length (grp df_base k))"
  have "map Room (w1 df_base k) = map Room (take ?n (grp df_base k))"
    and "map Room (w2 df_base k) = map Room (drop ?n (grp df_base k))"
    by (simp_all add: w1_def w2_def o_def)
  then have "map Room (w1 df_base k @ w2 df_base k)
      = map Room (take ?n (grp df_base k) @ drop ?n (grp df_base k))"
    by (simp only: map_append)
  then show ?thesis by (simp only: append_take_drop_id)
qed

lemma Room_df_out:
  "split_weeks df_base = Inr df_out \<Longrightarrow>
   map Room df_out = map Room (concat (map (grp df_base) (group_keys df_base)))"
proof -
  assume "split_weeks df_base = Inr df_out"
  then have o: "df_out = concat (map (\<lambda>k. w1 df_base k @ w2 df_base k) (group_keys df_base))"
    by (rule split_weeks_Inr)
  have "map Room (concat (map (\<lambda>k. w1 df_base k @ w2 df_base k) ks))
      = map Room (concat (map (grp df_base) ks))" for ks
    by (simp add: map_concat o_def Room_halves del: map_append)
  with o show ?thesis by simp
qed

lemma distinct_concat_grp:
  "distinct df_base \<Longrightarrow> distinct ks \<Longrightarrow> distinct (concat (map (grp df_base) ks))"
proof (induction ks)
  case Nil
  show ?case by simp
next
  case (Cons k ks)
  have "a \<notin> set (concat (map (grp df_base) ks))" if "a \<in> set (grp df_base k)" for a
  proof
    assume "a \<in> set (concat (map (grp df_base) ks))"
    then obtain k' where k': "k' \<in> set ks" "a \<in> set (grp df_base k')" by auto
    from that k'(2) have "k' = k" by (auto simp: grp_def intro: prod_eqI)
    with k'(1) Cons.prems(2) show False by simp
  qed
  with Cons show ?case by (auto simp: grp_def)
qed

lemma set_concat_grp: "set (concat (map (grp df_base) ks)) \<subseteq> set df_base"
  by (auto simp: grp_def)

lemma distinct_Room_df_out:
  assumes "distinct (map Room df_base)" and "split_weeks df_base = Inr df_out"
  shows "distinct (map Room df_out)"
proof -
  let ?xs = "concat (map (grp df_base) (group_keys df_base))"
  from assms(1) have d: "distinct df_base" and i: "inj_on Room (set df_base)"
    by (simp_all add: distinct_map)
  have "distinct ?xs" using d by (simp add: distinct_concat_grp)
  moreover have "inj_on Room (set ?xs)"
    using i set_concat_grp by (rule inj_on_subset)
  ultimately have "distinct (map Room ?xs)" by (simp add: distinct_map)
  then show ?thesis by (simp add: Room_df_out[OF assms(2)])
qed

lemma distinct_Room_sort_key:
  "distinct (map Room (sort_key f xs)) = distinct (map Room xs)"
  by (simp add: distinct_map)

lemma distinct_Room_written_rows:
  "distinct (map Room (written_rows (two_weeks_assignments ties hhmm idx rooms students)))"
proof (cases "split_weeks (assignments_base (run_base ties hhmm idx rooms students))")
  case (Inl e)
  then show ?thesis by (simp add: two_weeks_assignments_def)
next
  case (Inr df_out)
  have "distinct (map Room (assignments_base (run_base ties hhmm idx rooms students)))"
    using run_base_inv[of ties hhmm idx rooms students] by (simp add: state2_inv_def)
  then have "distinct (map Room df_out)" using Inr by (rule distinct_Room_df_out)
  then show ?thesis by (simp add: two_weeks_assignments_def Inr distinct_Room_sort_key)
qed

text \<open>
  C1.  No room appears twice: neither among the assignments of the single-week script,
  nor among those of the two-week script before the split, nor in the rows the two-week
  script writes, week 1 and week 2 together.  This holds for all input tables, also for
  an inventory that lists a room more than once.
\<close>

theorem room_assigned_at_most_once:
  "distinct (map Room (assignments (run_single ties week_of hhmm idx rooms students)))
   \<and> distinct (map Room (assignments_base (run_base ties hhmm idx rooms students)))
   \<and> distinct (map Room (written_rows (two_weeks_assignments ties hhmm idx rooms students)))"
  using run_single_inv[of rooms ties week_of hhmm idx students] run_base_inv[of ties hhmm idx rooms students]
    distinct_Room_written_rows[of ties hhmm idx rooms students]
  by (simp add: state_inv_def state2_inv_def)

section \<open>No assignment during a class\<close>

lemma has_conflict_iff:
  "has_conflict idx r s
     = (\<exists>iv\<in>set (get_conflicts idx (r, Some (Day s))). overlaps iv (start_dt s) (end_dt s))"
  by (simp add: has_conflict_def list_ex_iff)

lemma make_assignment_fields [simp]:
  "Student (make_assignment hhmm s r) = person s"
  "Day_label (make_assignment hhmm s r) = Day s"
  "Shift_Start (make_assignment hhmm s r) = hhmm (start_dt s)"
  "Shift_End (make_assignment hhmm s r) = hhmm (end_dt s)"
  by (simp_all add: make_assignment_def)

lemma in_df_out:
  assumes "split_weeks df_base = Inr df_out" and "a \<in> set df_out"
  shows "\<exists>b\<in>set df_base. a = b\<lparr>Day_label := Day_label b @ '' 1''\<rparr>
                        \<or> a = b\<lparr>Day_label := Day_label b @ '' 2''\<rparr>"
proof -
  from assms obtain k where "a \<in> set (w1 df_base k) \<or> a \<in> set (w2 df_base k)"
    by (auto simp: split_weeks_Inr[OF assms(1)])
  then show ?thesis
  proof
    assume "a \<in> set (w1 df_base k)"
    then obtain b where "b \<in> set (grp df_base k)" "a = b\<lparr>Day_label := snd k @ '' 1''\<rparr>"
      by (auto simp: w1_def dest: in_set_takeD)
    then show ?thesis by (intro bexI[of _ b]) (auto simp: grp_def)
  next
    assume "a \<in> set (w2 df_base k)"
    then obtain b where "b \<in> set (grp df_base k)" "a = b\<lparr>Day_label := snd k @ '' 2''\<rparr>"
      by (auto simp: w2_def dest: in_set_dropD)
    then show ?thesis by (intro bexI[of _ b]) (auto simp: grp_def)
  qed
qed

lemma run_single_members:
  assumes "a \<in> set (assignments (run_single ties week_of hhmm idx rooms students))"
  shows "\<exists>s\<in>set students. \<exists>r\<in>set rooms. a = make_assignment hhmm s r \<and> \<not> has_conflict idx (room r) s"
  using foldl_assign_shift_members[of a ties week_of hhmm idx rooms init_state students] assms
  by (simp add: run_single_def)

lemma run_base_members:
  assumes "a \<in> set (assignments_base (run_base ties hhmm idx rooms students))"
  shows "\<exists>s\<in>set students. \<exists>r\<in>set rooms. a = make_assignment hhmm s r \<and> \<not> has_conflict idx (room r) s"
  using foldl_assign_shift2_members[of a ties hhmm idx rooms init_state2 students] assms
  by (simp add: run_base_def)

lemma written_rows_members:
  assumes "a \<in> set (written_rows (two_weeks_assignments ties hhmm idx rooms students))"
  shows "\<exists>b\<in>set (assignments_base (run_base ties hhmm idx rooms students)).
           a = b\<lparr>Day_label := Day_label b @ '' 1''\<rparr> \<or> a = b\<lparr>Day_label := Day_label b @ '' 2''\<rparr>"
proof (cases "split_weeks (assignments_base (run_base ties hhmm idx rooms students))")
  case (Inl e)
  with assms show ?thesis by (simp add: two_weeks_assignments_def)
next
  case (Inr df_out)
  with assms have "a \<in> set df_out" by (simp add: two_weeks_assignments_def)
  with Inr show ?thesis by (rule in_df_out)
qed

lemma single_conflict_free:
  assumes "a \<in> set (assignments (run_single ties week_of hhmm idx rooms students))"
  shows "\<exists>s\<in>set students. Student a = person s \<and> Day_label a = Day s
         \<and> Shift_Start a = hhmm (start_dt s) \<and> Shift_End a = hhmm (end_dt s)
         \<and> (\<forall>iv\<in>set (get_conflicts idx (Room a, Some (Day s))).
               \<not> overlaps iv (start_dt s) (end_dt s))"
proof -
  from run_single_members[OF assms] obtain s r where
    "s \<in> set students" "a = make_assignment hhmm s r" "\<not> has_conflict idx (room r) s"
    by blast
  then show ?thesis by (intro bexI[of _ s]) (simp_all add: has_conflict_iff)
qed

lemma two_week_conflict_free:
  assumes "a \<in> set (written_rows (two_weeks_assignments ties hhmm idx rooms students))"
  shows "\<exists>s\<in>set students. Student a = person s
         \<and> (Day_label a = Day s @ '' 1'' \<or> Day_label a = Day s @ '' 2'')
         \<and> Shift_Start a = hhmm (start_dt s) \<and> Shift_End a = hhmm (end_dt s)
         \<and> (\<forall>iv\<in>set (get_conflicts idx (Room a, Some (Day s))).
               \<not> overlaps iv (start_dt s) (end_dt s))"
proof -
  from written_rows_members[OF assms] obtain b where
    b: "b \<in> set (assignments_base (run_base ties hhmm idx rooms students))"
    and a: "a = b\<lparr>Day_label := Day_label b @ '' 1''\<rparr> \<or> a = b\<lparr>Day_label := Day_label b @ '' 2''\<rparr>"
    by blast
  from run_base_members[OF b] obtain s r where
    s: "s \<in> set students" "b = make_assignment hhmm s r" "\<not> has_conflict idx (room r) s"
    by blast
  from a s show ?thesis by (intro bexI[of _ s]) (auto simp: has_conflict_iff)
qed

text \<open>
  C2.  Every assignment of the single-week script, and every row the two-week script
  writes, was made for a shift of the input such that no interval recorded for the room
  and the weekday of the shift overlaps the shift, where an interval with start \<open>b\<close>
  and end \<open>e\<close> overlaps the shift from \<open>x\<close> to \<open>y\<close> exactly when \<open>b < y\<close> and
  \<open>e > x\<close>; and a room passes the conflict test exactly when none of its intervals
  overlaps the shift.
\<close>

theorem conflict_freedom:
  "(\<forall>a\<in>set (assignments (run_single ties week_of hhmm idx rooms students)).
      \<exists>s\<in>set students. Student a = person s \<and> Day_label a = Day s
         \<and> Shift_Start a = hhmm (start_dt s) \<and> Shift_End a = hhmm (end_dt s)
         \<and> (\<forall>iv\<in>set (get_conflicts idx (Room a, Some (Day s))).
               \<not> overlaps iv (start_dt s) (end_dt s)))
   \<and> (\<forall>a\<in>set (written_rows (two_weeks_assignments ties hhmm idx rooms students)).
      \<exists>s\<in>set students. Student a = person s
         \<and> (Day_label a = Day s @ '' 1'' \<or> Day_label a = Day s @ '' 2'')
         \<and> Shift_Start a = hhmm (start_dt s) \<and> Shift_End a = hhmm (end_dt s)
         \<and> (\<forall>iv\<in>set (get_conflicts idx (Room a, Some (Day s))).
               \<not> overlaps iv (start_dt s) (end_dt s)))
   \<and> overlaps (Some b, Some e) x y = (b < y \<and> e > x)
   \<and> (\<not> has_conflict idx r s0)
       = (\<forall>iv\<in>set (get_conflicts idx (r, Some (Day s0))). \<not> overlaps iv (start_dt s0) (end_dt s0))"
  using single_conflict_free[of _ ties week_of hhmm idx rooms students]
    two_week_conflict_free[of _ ties hhmm idx rooms students]
  by (simp add: has_conflict_iff)

lemma ex_run_single:
  "assignments (run_single ex_ties ex_week ex_hhmm ex_idx ex_rooms [ex_shift])
     = [make_assignment ex_hhmm ex_shift (ex_rooms ! 0), make_assignment ex_hhmm ex_shift (ex_rooms ! 2)]"
  by (simp add: run_single_def ex_shift_single)

lemma ex_two_weeks:
  "two_weeks_assignments ex_ties ex_hhmm ex_idx ex_rooms [ex_shift]
     = Inr [(make_assignment ex_hhmm ex_shift (ex_rooms ! 0))\<lparr>Day_label := ''Monday 1''\<rparr>,
            (make_assignment ex_hhmm ex_shift (ex_rooms ! 2))\<lparr>Day_label := ''Monday 1''\<rparr>,
            (make_assignment ex_hhmm ex_shift (ex_rooms ! 1))\<lparr>Day_label := ''Monday 2''\<rparr>]"
  by code_simp

theorem conflict_freedom_witness:
  "make_assignment ex_hhmm ex_shift (ex_rooms ! 0)
     \<in> set (assignments (run_single ex_ties ex_week ex_hhmm ex_idx ex_rooms [ex_shift]))
   \<and> (make_assignment ex_hhmm ex_shift (ex_rooms ! 0))\<lparr>Day_label := ''Monday 1''\<rparr>
     \<in> set (written_rows (two_weeks_assignments ex_ties ex_hhmm ex_idx ex_rooms [ex_shift]))
   \<and> (Some 1500, Some 3000) \<in> set (get_conflicts ex_idx (''B101'', Some ''Monday''))
   \<and> \<not> overlaps (Some 1500, Some 3000) (start_dt ex_shift) (end_dt ex_shift)"
proof -
  let ?a = "make_assignment ex_hhmm ex_shift (ex_rooms ! 0)"
  have m1: "?a \<in> set (assignments (run_single ex_ties ex_week ex_hhmm ex_idx ex_rooms [ex_shift]))"
    by (simp add: ex_run_single)
  have m2: "?a\<lparr>Day_label := ''Monday 1''\<rparr>
      \<in> set (written_rows (two_weeks_assignments ex_ties ex_hhmm ex_idx ex_rooms [ex_shift]))"
    by (simp add: ex_two_weeks)
  have iv: "(Some 1500, Some 3000) \<in> set (get_conflicts ex_idx (''B101'', Some ''Monday''))"
    by (simp add: get_conflicts_def ex_idx_def)
  have ra: "Room ?a = ''B101''" and da: "Day ex_shift = ''Monday''"
    by (simp_all add: ex_rooms_def ex_shift_def)
  from conflict_freedom[of ex_ties ex_week ex_hhmm ex_idx ex_rooms "[ex_shift]"] m1
  have "\<forall>iv\<in>set (get_conflicts ex_idx (Room ?a, Some (Day ex_shift))).
          \<not> overlaps iv (start_dt ex_shift) (end_dt ex_shift)"
    by fastforce
  with iv have "\<not> overlaps (Some 1500, Some 3000) (start_dt ex_shift) (end_dt ex_shift)"
    unfolding ra da by blast
  with m1 m2 iv show ?thesis by blast
qed


section \<open>The unassigned rooms\<close>



lemma state_inv_weeks:
  "state_inv rooms st \<Longrightarrow> fst ` room_week_assigned st \<subseteq> rooms_assigned st"
  unfolding state_inv_def by blast


lemma unchecked_df_without_type: "unchecked_df False rooms A = Inl KeyError"
  by (simp add: unchecked_df_def)









section \<open>The week-scoped check of the single-week script\<close>

lemma distinct_room_zone_rooms_df:
  "distinct (map room rooms) \<Longrightarrow> distinct (map room (zone_rooms_df ties rooms A z))"
  by (simp add: zone_rooms_df_def available_def distinct_map_filter)

lemma assign_rooms_nocheck_eq:
  assumes "distinct (map room cs)"
    and "\<forall>c\<in>set cs. room c \<notin> rooms_assigned st"
    and "fst ` room_week_assigned st \<subseteq> rooms_assigned st"
  shows "assign_rooms_nocheck hhmm idx s wk cs (t, st) = assign_rooms hhmm idx s wk cs (t, st)"
  using assms
proof (induction cs arbitrary: t st)
  case Nil
  show ?case by simp
next
  case (Cons c cs)
  let ?st1 = "\<lparr>assignments = assignments st @ [make_assignment hhmm s c],
               rooms_assigned = insert (room c) (rooms_assigned st),
               room_week_assigned = insert (room c, wk) (room_week_assigned st)\<rparr>"
  have nw: "(room c, wk) \<notin> room_week_assigned st"
    using Cons.prems(2,3) by force
  have d: "distinct (map room cs)" using Cons.prems(1) by simp
  have r: "\<forall>c\<in>set cs. room c \<notin> rooms_assigned st" using Cons.prems(2) by simp
  have "\<forall>c'\<in>set cs. room c' \<noteq> room c"
    using Cons.prems(1) by (auto simp: image_iff)
  then have r1: "\<forall>c'\<in>set cs. room c' \<notin> rooms_assigned ?st1"
    using r by simp
  have w1: "fst ` room_week_assigned ?st1 \<subseteq> rooms_assigned ?st1"
    using Cons.prems(3) by auto
  show ?case
    using nw Cons.IH[OF d r Cons.prems(3)] Cons.IH[OF d r1 w1] by simp
qed

lemma assign_shift_nocheck_eq:
  assumes "state_inv rooms st" and "distinct (map room rooms)"
  shows "assign_shift_nocheck ties week_of hhmm idx rooms st s = assign_shift ties week_of hhmm idx rooms st s"
proof -
  have "assign_rooms_nocheck hhmm idx s (week_of (start_dt s))
          (zone_rooms_df ties rooms (rooms_assigned st) z) (0, st)
      = assign_rooms hhmm idx s (week_of (start_dt s))
          (zone_rooms_df ties rooms (rooms_assigned st) z) (0, st)" for z
    using assms(2) state_inv_weeks[OF assms(1)]
    by (intro assign_rooms_nocheck_eq distinct_room_zone_rooms_df)
       (simp_all add: set_zone_rooms_df)
  then show ?thesis
    by (simp add: assign_shift_nocheck_def assign_shift_def split: option.splits)
qed

lemma foldl_assign_shift_nocheck_eq:
  "state_inv rooms st \<Longrightarrow> distinct (map room rooms) \<Longrightarrow>
   foldl (assign_shift_nocheck ties week_of hhmm idx rooms) st ss
     = foldl (assign_shift ties week_of hhmm idx rooms) st ss"
  by (induction ss arbitrary: st) (simp_all add: assign_shift_nocheck_eq assign_shift_inv)

text \<open>
  C10.  When the room names of the inventory are pairwise different, the single-week
  script without the test \<^verbatim>\<open>(room_name, week_num) in room_week_assigned\<close> ends in the
  same state, and so with the same assignments, as the script itself; every room of a
  pair in \<^verbatim>\<open>room_week_assigned\<close> is in \<^verbatim>\<open>rooms_assigned\<close>, whose rooms are
  filtered out of the candidates.
\<close>

theorem week_scoped_check_redundant:
  assumes "distinct (map room rooms)"
  shows "run_single_nocheck ties week_of hhmm idx rooms students = run_single ties week_of hhmm idx rooms students
     \<and> assignments (run_single_nocheck ties week_of hhmm idx rooms students)
       = assignments (run_single ties week_of hhmm idx rooms students)
     \<and> fst ` room_week_assigned (run_single ties week_of hhmm idx rooms students)
       \<subseteq> rooms_assigned (run_single ties week_of hhmm idx rooms students)"
proof -
  have "run_single_nocheck ties week_of hhmm idx rooms students = run_single ties week_of hhmm idx rooms students"
    unfolding run_single_nocheck_def run_single_def
    by (rule foldl_assign_shift_nocheck_eq[OF state_inv_init assms])
  then show ?thesis
    using state_inv_weeks[OF run_single_inv[of rooms ties week_of hhmm idx students]] by simp
qed

theorem week_scoped_check_redundant_witness:
  "distinct (map room ex_rooms)
   \<and> assignments (run_single_nocheck ex_ties ex_week ex_hhmm ex_idx ex_rooms [ex_shift])
     = [make_assignment ex_hhmm ex_shift (ex_rooms ! 0), make_assignment ex_hhmm ex_shift (ex_rooms ! 2)]"
proof -
  have h: "distinct (map room ex_rooms)" by (simp add: ex_rooms_def)
  from week_scoped_check_redundant[OF h, of ex_ties ex_week ex_hhmm ex_idx "[ex_shift]"]
  have "assignments (run_single_nocheck ex_ties ex_week ex_hhmm ex_idx ex_rooms [ex_shift])
      = assignments (run_single ex_ties ex_week ex_hhmm ex_idx ex_rooms [ex_shift])"
    by blast
  with h show ?thesis by (simp add: ex_run_single)
qed


section \<open>The occupancy index\<close>

lemma get_conflicts_empty [simp]: "get_conflicts Map.empty k = []"
  by (simp add: get_conflicts_def)

lemma get_conflicts_upd:
  "get_conflicts (idx(k' \<mapsto> ivs)) k = (if k = k' then ivs else get_conflicts idx k)"
  by (simp add: get_conflicts_def)

lemma get_conflicts_index_rows:
  "get_conflicts (index_rows idx rows) k
     = get_conflicts idx k
       @ map (\<lambda>row. snd (snd row)) (filter (\<lambda>row. (fst row, fst (snd row)) = k) rows)"
proof (induction rows arbitrary: idx)
  case Nil
  show ?case by simp
next
  case (Cons row rows)
  obtain r d s e where row: "row = (r, d, s, e)" by (cases row) auto
  show ?case
    unfolding row index_rows.simps Cons.IH get_conflicts_upd by auto
qed

lemma entries_explode_row:
  "map (\<lambda>row. snd (snd row))
       (filter (\<lambda>row. (fst row, fst (snd row)) = (r0, d0)) (explode_row parse_dt row))
     = (if day_map (day_of_week_of_first_session row) = d0
        then map (\<lambda>p. (parse_dt (Start_Date row) (Initial_Start_Time row),
                       parse_dt (Start_Date row) (Initial_End_Time row)))
                 (filter (\<lambda>p. strip p = r0) (split_comma (Locations row)))
        else [])"
  by (simp add: explode_row_def filter_map o_def)

lemma entries_clean_schedule:
  "map (\<lambda>row. snd (snd row))
       (filter (\<lambda>row. (fst row, fst (snd row)) = (r0, d0)) (clean_schedule parse_dt schedule))
     = concat (map (\<lambda>row. map (\<lambda>p. (parse_dt (Start_Date row) (Initial_Start_Time row),
                                     parse_dt (Start_Date row) (Initial_End_Time row)))
                               (filter (\<lambda>p. strip p = r0) (split_comma (Locations row))))
                   (filter (\<lambda>row. Status row = ''Confirmed''
                                 \<and> day_map (day_of_week_of_first_session row) = d0) schedule))"
proof (induction schedule)
  case Nil
  show ?case by (simp add: clean_schedule_def)
next
  case (Cons row schedule)
  have IH: "map (\<lambda>row. snd (snd row))
       (filter (\<lambda>row. (fst row, fst (snd row)) = (r0, d0))
          (concat (map (explode_row parse_dt) (filter (\<lambda>row. Status row = ''Confirmed'') schedule))))
     = concat (map (\<lambda>row. map (\<lambda>p. (parse_dt (Start_Date row) (Initial_Start_Time row),
                                     parse_dt (Start_Date row) (Initial_End_Time row)))
                               (filter (\<lambda>p. strip p = r0) (split_comma (Locations row))))
                   (filter (\<lambda>row. Status row = ''Confirmed''
                                 \<and> day_map (day_of_week_of_first_session row) = d0) schedule))"
    using Cons.IH by (simp only: clean_schedule_def)
  show ?case
  proof (cases "Status row = ''Confirmed''")
    case False
    then show ?thesis using IH by (simp add: clean_schedule_def)
  next
    case True
    have "map (\<lambda>row. snd (snd row))
       (filter (\<lambda>row. (fst row, fst (snd row)) = (r0, d0))
          (explode_row parse_dt row
           @ concat (map (explode_row parse_dt) (filter (\<lambda>row. Status row = ''Confirmed'') schedule))))
     = (if day_map (day_of_week_of_first_session row) = d0
        then map (\<lambda>p. (parse_dt (Start_Date row) (Initial_Start_Time row),
                       parse_dt (Start_Date row) (Initial_End_Time row)))
                 (filter (\<lambda>p. strip p = r0) (split_comma (Locations row)))
        else [])
       @ concat (map (\<lambda>row. map (\<lambda>p. (parse_dt (Start_Date row) (Initial_Start_Time row),
                                     parse_dt (Start_Date row) (Initial_End_Time row)))
                               (filter (\<lambda>p. strip p = r0) (split_comma (Locations row))))
                   (filter (\<lambda>row. Status row = ''Confirmed''
                                 \<and> day_map (day_of_week_of_first_session row) = d0) schedule))"
      by (simp only: filter_append map_append entries_explode_row IH)
    with True show ?thesis by (simp add: clean_schedule_def)
  qed
qed

text \<open>
  C8 does not hold as stated: a confirmed class whose times do not parse leaves an entry
  in the index, the pair of two missing instants.
\<close>

theorem unparsed_row_is_indexed:
  "no_parse (Start_Date bad_time_row) (Initial_Start_Time bad_time_row) = None
   \<and> no_parse (Start_Date bad_time_row) (Initial_End_Time bad_time_row) = None
   \<and> get_conflicts (schedule_by_room_day no_parse [bad_time_row]) (''A101'', Some ''Monday'')
       = [(None, None)]"
  by (simp add: schedule_by_room_day_def clean_schedule_def explode_row_def bad_time_row_def
      no_parse_def day_map_def strip_def isspace_def get_conflicts_def)

text \<open>
  C8, amended.  The list the index holds for a room and a weekday has, in the order of the
  schedule, one entry for every occurrence of the room in the comma-separated, stripped
  \<^verbatim>\<open>Locations\<close> of every row whose status is \<^verbatim>\<open>Confirmed\<close> and whose weekday maps to
  that weekday, and no other entry; the entries of a row all carry the parsed start and
  end of the row.  A row whose start or end does not parse is indexed all the same, with
  the missing instant, and such an entry overlaps no shift.
\<close>

theorem occupancy_index_construction:
  "get_conflicts (schedule_by_room_day parse_dt schedule) (r, d)
     = concat (map (\<lambda>row. map (\<lambda>p. (parse_dt (Start_Date row) (Initial_Start_Time row),
                                     parse_dt (Start_Date row) (Initial_End_Time row)))
                               (filter (\<lambda>p. strip p = r) (split_comma (Locations row))))
                   (filter (\<lambda>row. Status row = ''Confirmed''
                                 \<and> day_map (day_of_week_of_first_session row) = d) schedule))
   \<and> \<not> overlaps (None, e) x y
   \<and> \<not> overlaps (s, None) x y"
proof -
  have "\<not> overlaps (s, None) x y" by (cases s) simp_all
  moreover have "get_conflicts (schedule_by_room_day parse_dt schedule) (r, d)
     = concat (map (\<lambda>row. map (\<lambda>p. (parse_dt (Start_Date row) (Initial_Start_Time row),
                                     parse_dt (Start_Date row) (Initial_End_Time row)))
                               (filter (\<lambda>p. strip p = r) (split_comma (Locations row))))
                   (filter (\<lambda>row. Status row = ''Confirmed''
                                 \<and> day_map (day_of_week_of_first_session row) = d) schedule))"
    unfolding schedule_by_room_day_def get_conflicts_index_rows entries_clean_schedule by simp
  ultimately show ?thesis by simp
qed

section \<open>Choosing the zone\<close>

lemma zone_chosen_Some:
  "zone_chosen rooms A zs = Some z \<Longrightarrow> z \<in> set zs \<and> available rooms A z \<noteq> []"
  by (induction zs) (auto split: if_splits)

lemma zone_chosen_None:
  "(zone_chosen rooms A zs = None) = (\<forall>z\<in>set zs. available rooms A z = [])"
  by (induction zs) auto

lemma candidate_empty: "(candidate rooms A z = []) = (available rooms A z = [])"
proof -
  have "length (candidate rooms A z) = length (available rooms A z)"
    by (simp add: candidate_def)
  then show ?thesis by (cases "candidate rooms A z"; cases "available rooms A z") auto
qed

lemma zone_locked_is_zone_chosen:
  "fst (zone_loop hhmm idx rooms s zs st) = zone_chosen rooms (rooms_assigned_global st) zs"
  by (induction zs) (simp_all add: candidate_empty)

lemma set_zone_scores:
  "set (map fst (zone_scores ties rooms A)) = zone ` set (filter (\<lambda>r. room r \<notin> A) rooms)"
  by (simp add: zone_scores_def sort_values_desc_def Let_def image_image)

lemma ranking_exhausted:
  "(zone_chosen rooms A (map fst (zone_scores ties rooms A)) = None) = (\<forall>r\<in>set rooms. room r \<in> A)"
proof
  assume n: "zone_chosen rooms A (map fst (zone_scores ties rooms A)) = None"
  show "\<forall>r\<in>set rooms. room r \<in> A"
  proof (rule ballI, rule ccontr)
    fix r
    assume r: "r \<in> set rooms" "room r \<notin> A"
    then have "zone r \<in> set (map fst (zone_scores ties rooms A))"
      unfolding set_zone_scores by simp
    with n have "available rooms A (zone r) = []"
      unfolding zone_chosen_None by blast
    moreover have "r \<in> set (available rooms A (zone r))"
      using r by (simp add: available_def)
    ultimately show False by simp
  qed
next
  assume a: "\<forall>r\<in>set rooms. room r \<in> A"
  then have "available rooms A z = []" for z
    by (simp add: available_def)
  then show "zone_chosen rooms A (map fst (zone_scores ties rooms A)) = None"
    unfolding zone_chosen_None by simp
qed

lemma zone_scores_descending: "sorted (rev (map snd (zone_scores ties rooms A)))"
  by (simp add: zone_scores_def sort_values_desc_def Let_def rev_map)

text \<open>
  C7 fails in the single-week script for a zone whose name is the empty string: the
  zone is found by the walk over the ranking, but \<^verbatim>\<open>if not zone_chosen\<close> takes the
  empty string for no zone and the shift is skipped, although the room is free and the
  shift is long enough.  The two-week script assigns the room.
\<close>

theorem blank_zone_shift_skipped:
  "map zone blank_zone_rooms = [[]]
   \<and> zone_chosen blank_zone_rooms {} (map fst (zone_scores ex_ties blank_zone_rooms {})) = Some []
   \<and> available blank_zone_rooms {} [] = blank_zone_rooms
   \<and> usable_time ex_shift = 25
   \<and> assignments (run_single ex_ties ex_week ex_hhmm ex_idx blank_zone_rooms [ex_shift]) = []
   \<and> map Room (assignments_base (run_base ex_ties ex_hhmm ex_idx blank_zone_rooms [ex_shift])) = [''A101'']"
  by code_simp

section \<open>The order of the candidate rooms\<close>

lemma zone_rooms_df_by_priority: "sorted (map priority (zone_rooms_df ties rooms A z))"
  by (simp add: zone_rooms_df_def)

text \<open>
  Of two rooms of equal priority the single-week script takes first the one the sorting
  routine puts first.  The routine sees the priorities only, so whatever it does with two
  equal priorities, one of the two orders of the inventory makes it take building B before
  building A.
\<close>

lemma equal_priority_order_any_ranks:
  "map room (zone_rooms_df ties tie_rooms {} ''Z'') = [''B101'', ''A101'']
   \<or> map room (zone_rooms_df ties (rev tie_rooms) {} ''Z'') = [''B101'', ''A101'']"
  by (cases "ties [1, 1] 0 \<le> ties [1, 1] 1")
     (simp_all add: zone_rooms_df_def available_def tie_rooms_def argsort_by_def less_eq_prod_def)

lemma candidate_by_priority_building_room:
  "sorted (map (\<lambda>r. (priority r, na_last (building r), room r)) (candidate rooms A z))"
  by (simp add: candidate_def)

lemma scenario_priorities_1_3_2:
  "map priority ex_rooms = [1, 3, 2]
   \<and> usable_time ex_shift = 25
   \<and> map Priority (assignments (run_single ex_ties ex_week ex_hhmm ex_idx ex_rooms [ex_shift])) = [1, 2]"
proof -
  have "map priority ex_rooms = [1, 3, 2]"
    by (simp add: ex_rooms_def)
  moreover have "usable_time ex_shift = 25"
    by (simp add: usable_time_def ex_shift_def SHIFT_START_END_BUFFER_def)
  moreover have "Priority (make_assignment ex_hhmm ex_shift (ex_rooms ! 0)) = 1"
    and "Priority (make_assignment ex_hhmm ex_shift (ex_rooms ! 2)) = 2"
    by (simp_all add: make_assignment_def ex_rooms_def)
  ultimately show ?thesis by (simp add: ex_run_single)
qed

text \<open>
  C6 fails in the single-week script: its candidates are sorted by priority alone, so two
  rooms of equal priority are taken in the order that sort leaves them in, which building
  and room have no part in.  Here the two rows keep their order, building B before
  building A, and a shift with time for one room gets the room of building B.  The
  two-week script sorts by priority, building and room and takes building A first.
\<close>

theorem equal_priority_order_single_week:
  "map priority tie_rooms = [1, 1]
   \<and> map room (zone_rooms_df ex_ties tie_rooms {} ''Z'') = [''B101'', ''A101'']
   \<and> map room (candidate tie_rooms {} ''Z'') = [''A101'', ''B101'']
   \<and> usable_time tie_shift = 10
   \<and> map Room (assignments (run_single ex_ties ex_week ex_hhmm ex_idx tie_rooms [tie_shift])) = [''B101'']
   \<and> map Room (assignments_base (run_base ex_ties ex_hhmm ex_idx tie_rooms [tie_shift])) = [''A101'', ''B101'']"
  by code_simp

end
